theory Spec2Isabelle
  imports Main "HOL-Library.Word"
begin

unbundle bit_operations_syntax

section \<open>Data model\<close>

text \<open>
  The relayer server and the swap scripts are JavaScript. A BigInt is an unbounded
  integer, so it is an \<open>int\<close>; \<open>&\<close> and \<open>|\<close> on BigInt are the bitwise operations of
  \<open>int\<close>. Hex strings (order hash, secret, hashlock) are \<open>string\<close>. An account or
  contract address is kept as the number it denotes, so that \<open>BigInt(address)\<close> is the
  identity on it. A value that may be missing (\<open>undefined\<close> or \<open>null\<close>) is an option.
\<close>

type_synonym address = int

text \<open>
  The tuple \<open>(orderHash, hashlock, maker, taker, token, amount, safetyDeposit, timelocks)\<close>
  of ESCROW\_FACTORY\_ABI and ESCROW\_ABI.
\<close>

record immutables =
  orderHash :: string
  hashlock :: string
  maker :: int
  taker :: int
  token :: int
  amount :: int
  safetyDeposit :: int
  timelocks :: int

text \<open>\<open>tests/config.js\<close> is not part of the sources: the values read from it are parameters.\<close>

record config =
  srcChainId :: int
  dstChainId :: int
  srcUSDC :: address
  dstUSDC :: address

section \<open>Timelocks: stamping deployedAt\<close>

text \<open>
  \<^verbatim>\<open>(srcImmutablesRaw.timelocks & 0xFFFFFFFFFFFFFFFFFFFFFFFFFFFFFFFFFFFFFFFFFFFFFFFFFFFFFF00000000n) | BigInt(currentTimestamp)\<close>
  The literal has 54 digits F and 8 digits 0.
\<close>

definition DEPLOYED_AT_CLEAR_MASK :: int where
  "DEPLOYED_AT_CLEAR_MASK = 0xFFFFFFFFFFFFFFFFFFFFFFFFFFFFFFFFFFFFFFFFFFFFFFFFFFFFFF00000000"

definition timelocksWithDeployedAt :: "int \<Rightarrow> int \<Rightarrow> int" where
  "timelocksWithDeployedAt packed currentTimestamp =
     (packed AND DEPLOYED_AT_CLEAR_MASK) OR currentTimestamp"

text \<open>A fixed-width sub-field of a packed integer: \<open>width\<close> bits starting at bit \<open>pos\<close>.\<close>

definition subfield :: "nat \<Rightarrow> nat \<Rightarrow> int \<Rightarrow> int" where
  "subfield pos width x = take_bit width (drop_bit pos x)"

text \<open>The sub-field the mask clears and the stamp fills: the low 32 bits.\<close>

definition deployedAt :: "int \<Rightarrow> int" where
  "deployedAt x = subfield 0 32 x"

section \<open>The create-order handler: both Immutables and the registry entry\<close>

text \<open>The EIP-712 typed data kept with the entry (domain and message; the type table is constant).\<close>

record typed_data =
  td_chainId :: int
  td_verifyingContract :: address
  td_userAddress :: address
  td_amount :: int
  td_srcFactoryAddress :: address
  td_dstFactoryAddress :: address
  td_hashlock :: string
  td_orderHash :: string
  td_timestamp :: int
  td_nonce :: int

text \<open>
  The object stored in \<open>activeSwaps\<close>. The first twelve fields are those of the object
  literal in \<open>/api/create-order\<close>; the others are properties added later
  (\<open>swapData.signature = ...\<close>, \<open>swapData.dstEscrowAddress = ...\<close>, ...), absent
  (\<open>None\<close>) until assigned. The fields \<open>orderHash\<close>, \<open>hashlock\<close> and \<open>amount\<close> carry the
  prefix \<open>sd_\<close> because the Immutables have fields of the same names.
\<close>

record swap_data =
  sd_orderHash :: string
  secret :: string
  sd_hashlock :: string
  sd_amount :: int
  userAddress :: address
  srcImmutables :: immutables
  dstImmutables :: immutables
  srcFactoryAddress :: address
  dstFactoryAddress :: address
  status :: string
  createdAt :: string
  typedData :: typed_data
  signature :: "string option"
  srcEscrowAddress :: "address option"
  dstEscrowAddress :: "address option"
  completedAt :: "string option"
  error :: "string option"

text \<open>
  The registry as a handler of the API sees it: for each swap id, the fields of the
  object that \<open>activeSwaps.get\<close> returns at that moment.
\<close>

type_synonym registry = "string \<rightharpoonup> swap_data"

record create_order_request =
  req_userAddress :: address
  req_srcFactoryAddress :: address
  req_dstFactoryAddress :: address

text \<open>
  What the handler obtains from the libraries and the SDK during one request: the random
  secret, \<open>ethers.keccak256(secret)\<close>, \<open>ethers.parseUnits(amount.toString(), 6)\<close>,
  \<open>order.getOrderHash(...)\<close>, \<open>order.toSrcImmutables(...)\<close>, the clock and the random
  nonce. \<open>ethers.parseEther('0.001')\<close> is \<open>10 ^ 15\<close>.
\<close>

record order_env =
  env_secret :: string
  env_hashlock :: string
  env_swapAmount :: int
  env_orderHash :: string
  env_srcImmutablesRaw :: immutables
  env_currentTimestamp :: int
  env_createdAt :: string
  env_nonce :: int

definition parseEther_0_001 :: int where
  "parseEther_0_001 = 10 ^ 15"

definition srcImmutablesOf :: "immutables \<Rightarrow> int \<Rightarrow> int \<Rightarrow> immutables" where
  "srcImmutablesOf srcImmutablesRaw safetyDep timelocksStamped =
     \<lparr> orderHash = orderHash srcImmutablesRaw,
       hashlock = hashlock srcImmutablesRaw,
       maker = maker srcImmutablesRaw,
       taker = taker srcImmutablesRaw,
       token = token srcImmutablesRaw,
       amount = amount srcImmutablesRaw,
       safetyDeposit = safetyDep,
       timelocks = timelocksStamped \<rparr>"

definition dstImmutablesOf ::
  "immutables \<Rightarrow> address \<Rightarrow> address \<Rightarrow> int \<Rightarrow> int \<Rightarrow> int \<Rightarrow> immutables" where
  "dstImmutablesOf srcImm dstTaker dstToken swapAmount safetyDep timelocksStamped =
     \<lparr> orderHash = orderHash srcImm,
       hashlock = hashlock srcImm,
       maker = maker srcImm,
       taker = dstTaker,
       token = dstToken,
       amount = swapAmount,
       safetyDeposit = safetyDep,
       timelocks = timelocksStamped \<rparr>"

text \<open>The two projections as \<open>/api/create-order\<close> builds them (lines 874 to 897).\<close>

definition create_order_srcImmutables :: "order_env \<Rightarrow> immutables" where
  "create_order_srcImmutables e =
     srcImmutablesOf (env_srcImmutablesRaw e) parseEther_0_001
       (timelocksWithDeployedAt (timelocks (env_srcImmutablesRaw e)) (env_currentTimestamp e))"

definition create_order_dstImmutables :: "config \<Rightarrow> create_order_request \<Rightarrow> order_env \<Rightarrow> immutables" where
  "create_order_dstImmutables cfg req e =
     dstImmutablesOf (create_order_srcImmutables e) (req_userAddress req) (dstUSDC cfg)
       (env_swapAmount e) parseEther_0_001
       (timelocksWithDeployedAt (timelocks (env_srcImmutablesRaw e)) (env_currentTimestamp e))"

definition create_order_typedData :: "config \<Rightarrow> create_order_request \<Rightarrow> order_env \<Rightarrow> typed_data" where
  "create_order_typedData cfg req e =
     \<lparr> td_chainId = srcChainId cfg,
       td_verifyingContract = req_srcFactoryAddress req,
       td_userAddress = req_userAddress req,
       td_amount = env_swapAmount e,
       td_srcFactoryAddress = req_srcFactoryAddress req,
       td_dstFactoryAddress = req_dstFactoryAddress req,
       td_hashlock = env_hashlock e,
       td_orderHash = env_orderHash e,
       td_timestamp = env_currentTimestamp e,
       td_nonce = env_nonce e \<rparr>"

definition create_order_entry :: "config \<Rightarrow> create_order_request \<Rightarrow> order_env \<Rightarrow> swap_data" where
  "create_order_entry cfg req e =
     \<lparr> sd_orderHash = env_orderHash e,
       secret = env_secret e,
       sd_hashlock = env_hashlock e,
       sd_amount = env_swapAmount e,
       userAddress = req_userAddress req,
       srcImmutables = create_order_srcImmutables e,
       dstImmutables = create_order_dstImmutables cfg req e,
       srcFactoryAddress = req_srcFactoryAddress req,
       dstFactoryAddress = req_dstFactoryAddress req,
       status = ''created'',
       createdAt = env_createdAt e,
       typedData = create_order_typedData cfg req e,
       signature = None,
       srcEscrowAddress = None,
       dstEscrowAddress = None,
       completedAt = None,
       error = None \<rparr>"

record approval_data =
  ap_tokenAddress :: address
  ap_spender :: address
  ap_amount :: int

datatype create_order_response =
    OrderCreated string string typed_data approval_data
  | OrderFailed string

text \<open>
  The handler: a library or SDK call that throws (\<open>Inl\<close> with the message) is answered
  with status 500 and leaves the registry alone; otherwise the entry is stored under
  \<open>swapId = orderHash\<close>.
\<close>

definition create_order ::
  "config \<Rightarrow> create_order_request \<Rightarrow> string + order_env \<Rightarrow> registry \<Rightarrow> create_order_response \<times> registry" where
  "create_order cfg req r activeSwaps =
     (case r of
        Inl msg \<Rightarrow> (OrderFailed msg, activeSwaps)
      | Inr e \<Rightarrow>
          (let swapId = env_orderHash e in
           (OrderCreated swapId (env_orderHash e) (create_order_typedData cfg req e)
              \<lparr> ap_tokenAddress = srcUSDC cfg, ap_spender = req_srcFactoryAddress req,
                ap_amount = env_swapAmount e \<rparr>,
            activeSwaps(swapId \<mapsto> create_order_entry cfg req e))))"

section \<open>The swap-status handler\<close>

text \<open>
  \<open>x || null\<close>: a missing property gives \<open>null\<close>; an address, a non-empty string, is
  truthy and is returned.
\<close>

definition or_null :: "address option \<Rightarrow> address option" where
  "or_null x = (case x of None \<Rightarrow> None | Some a \<Rightarrow> Some a)"

text \<open>
  The \<open>details\<close> object of the reply. \<open>ethers.formatUnits(amount, 6)\<close> prints the integer
  with six decimals; the model keeps the integer.
\<close>

record status_details =
  det_amount :: int
  det_userAddress :: address
  det_createdAt :: string
  det_srcEscrowAddress :: "address option"
  det_dstEscrowAddress :: "address option"

datatype status_reply =
    SwapNotFound string
  | SwapStatus string string status_details

definition swap_status :: "registry \<Rightarrow> string \<Rightarrow> status_reply" where
  "swap_status activeSwaps swapId =
     (case activeSwaps swapId of
        None \<Rightarrow> SwapNotFound ''Swap not found''
      | Some swapData \<Rightarrow>
          SwapStatus (status swapData) swapId
            \<lparr> det_amount = sd_amount swapData,
              det_userAddress = userAddress swapData,
              det_createdAt = createdAt swapData,
              det_srcEscrowAddress = or_null (srcEscrowAddress swapData),
              det_dstEscrowAddress = or_null (dstEscrowAddress swapData) \<rparr>)"

text \<open>Every entry sits under the key that its own \<open>orderHash\<close> field holds.\<close>

definition keyed_by_orderHash :: "registry \<Rightarrow> bool" where
  "keyed_by_orderHash activeSwaps \<longleftrightarrow>
     (\<forall>k. case activeSwaps k of None \<Rightarrow> True | Some swapData \<Rightarrow> sd_orderHash swapData = k)"

section \<open>The escrow addresses of \<open>scripts/cross-chain-swap.js\<close>\<close>

text \<open>
  \<^verbatim>\<open>'0x' + ethers.keccak256(ethers.solidityPacked(['bytes32', 'address'],
      [srcImmutables.orderHash, srcChain.user.address])).substring(0, 40)\<close>
  (the comment above it: "Use a simple address calculation for now").
  \<open>ethers.keccak256\<close> and \<open>ethers.solidityPacked\<close> are library functions: parameters.
  \<open>substring(0, 40)\<close> keeps the first 40 characters, or all of a shorter string.
\<close>

definition simple_escrow_address ::
  "(string \<Rightarrow> string) \<Rightarrow> (string \<Rightarrow> address \<Rightarrow> string) \<Rightarrow> string \<Rightarrow> address \<Rightarrow> string" where
  "simple_escrow_address keccak256 solidityPacked oh user =
     ''0x'' @ take 40 (keccak256 (solidityPacked oh user))"

definition srcEscrowAddressOf ::
  "(string \<Rightarrow> string) \<Rightarrow> (string \<Rightarrow> address \<Rightarrow> string) \<Rightarrow> immutables \<Rightarrow> address \<Rightarrow> string" where
  "srcEscrowAddressOf keccak256 solidityPacked srcImm srcUser =
     simple_escrow_address keccak256 solidityPacked (orderHash srcImm) srcUser"

text \<open>
  \<^verbatim>\<open>{ ...srcImmutables, taker: dstChain.user.address, amount: swapAmount,
     token: config.chain.destination.tokens.USDC.address, safetyDeposit: safetyDeposit,
     timelocks: srcImmutables.timelocks }\<close>
\<close>

definition swap_script_dstImmutables :: "immutables \<Rightarrow> address \<Rightarrow> int \<Rightarrow> address \<Rightarrow> int \<Rightarrow> immutables" where
  "swap_script_dstImmutables srcImm dstUser swapAmount dstToken safetyDep =
     srcImm \<lparr> taker := dstUser, amount := swapAmount, token := dstToken,
              safetyDeposit := safetyDep, timelocks := timelocks srcImm \<rparr>"

definition dstEscrowAddressOf ::
  "(string \<Rightarrow> string) \<Rightarrow> (string \<Rightarrow> address \<Rightarrow> string) \<Rightarrow> immutables \<Rightarrow> address \<Rightarrow> string" where
  "dstEscrowAddressOf keccak256 solidityPacked dstImm dstUser =
     simple_escrow_address keccak256 solidityPacked (orderHash dstImm) dstUser"

section \<open>External calls, replies and traces\<close>

text \<open>
  Everything the orchestration does outside the process is a call on a ledger client
  (an ethers contract, provider or wallet) or a timer. A call either throws an
  \<open>Error\<close> with a message or returns; the replies are given by the environment, which
  may answer the same call differently at different moments: it is asked with the number
  of calls made so far. Each call and its reply is appended to the trace.
\<close>

datatype chain = Src | Dst

text \<open>The arguments of an escrow's \<open>withdraw\<close> as the ABI encodes them.\<close>

datatype abi_arg = Bytes32 string | Tuple immutables | Bytes32Array "string list"

text \<open>
  A receipt log: \<open>interface.parseLog(log)\<close> throws or returns nothing usable
  (\<open>Unparsable\<close>), or gives the event name with \<open>args.escrow\<close> and
  \<open>args.srcImmutables\<close> where the event has them.
\<close>

datatype log = Unparsable | Parsed string "address option" "immutables option"

datatype call =
    Allowance chain address address
  | BalanceOf chain address
  | GetBalance chain address
  | EstimateApprove chain address int
  | Approve chain address int "int option"
  | TransferFrom chain address address int
  | Transfer chain address int
  | EstimateCreateDstEscrow immutables int int
  | CreateDstEscrow immutables int int "int option"
  | EstimateCreateSrcEscrow immutables int
  | CreateSrcEscrow immutables int "int option"
  | GetTransactionReceipt chain
  | GetBlock chain
  | AddressOfEscrowSrc immutables
  | EstimateWithdraw chain address "abi_arg list"
  | Withdraw chain address "abi_arg list" "int option"
  | Sleep nat

datatype reply = Threw string | Uint int | Done | Logs "log list" | Addr address

record world =
  uint_reply :: "nat \<Rightarrow> call \<Rightarrow> string + int"
  tx_reply :: "nat \<Rightarrow> call \<Rightarrow> string + unit"
  logs_reply :: "nat \<Rightarrow> call \<Rightarrow> string + log list"
  address_reply :: "nat \<Rightarrow> call \<Rightarrow> string + address"
  clock :: "nat \<Rightarrow> int"
  isoNow :: "nat \<Rightarrow> string"
  formatUnits6 :: "int \<Rightarrow> string"
  relayerAddress :: address

record 'a exec =
  store :: 'a
  trace :: "(call \<times> reply) list"

text \<open>
  A statement sequence ends normally with a value, by a thrown \<open>Error\<close> (its message), or
  by \<open>return\<close> out of the enclosing function.
\<close>

datatype abrupt = Thrown string | Returned

type_synonym ('a, 'r) prog = "'a exec \<Rightarrow> (abrupt \<times> 'a exec) + ('r \<times> 'a exec)"

definition ret :: "'r \<Rightarrow> ('a, 'r) prog" where
  "ret x = (\<lambda>s. Inr (x, s))"

definition throw :: "string \<Rightarrow> ('a, 'r) prog" where
  "throw msg = (\<lambda>s. Inl (Thrown msg, s))"

definition return_early :: "('a, 'r) prog" where
  "return_early = (\<lambda>s. Inl (Returned, s))"

definition andThen :: "('a, 'r) prog \<Rightarrow> ('r \<Rightarrow> ('a, 'q) prog) \<Rightarrow> ('a, 'q) prog" where
  "andThen m f = (\<lambda>s. case m s of Inl e \<Rightarrow> Inl e | Inr (x, s') \<Rightarrow> f x s')"

text \<open>\<open>try { m } catch (error) { h error.message }\<close>: a \<open>return\<close> is not caught.\<close>

definition try_catch :: "('a, 'r) prog \<Rightarrow> (string \<Rightarrow> ('a, 'r) prog) \<Rightarrow> ('a, 'r) prog" where
  "try_catch m h =
     (\<lambda>s. case m s of
        Inl (Thrown msg, s') \<Rightarrow> h msg s'
      | Inl (Returned, s') \<Rightarrow> Inl (Returned, s')
      | Inr r \<Rightarrow> Inr r)"

definition record_call :: "call \<Rightarrow> reply \<Rightarrow> 'a exec \<Rightarrow> 'a exec" where
  "record_call c r s = s \<lparr> trace := trace s @ [(c, r)] \<rparr>"

definition call_uint :: "world \<Rightarrow> call \<Rightarrow> ('a, int) prog" where
  "call_uint W c =
     (\<lambda>s. case uint_reply W (length (trace s)) c of
        Inl msg \<Rightarrow> Inl (Thrown msg, record_call c (Threw msg) s)
      | Inr v \<Rightarrow> Inr (v, record_call c (Uint v) s))"

definition call_tx :: "world \<Rightarrow> call \<Rightarrow> ('a, unit) prog" where
  "call_tx W c =
     (\<lambda>s. case tx_reply W (length (trace s)) c of
        Inl msg \<Rightarrow> Inl (Thrown msg, record_call c (Threw msg) s)
      | Inr u \<Rightarrow> Inr ((), record_call c Done s))"

definition call_logs :: "world \<Rightarrow> call \<Rightarrow> ('a, log list) prog" where
  "call_logs W c =
     (\<lambda>s. case logs_reply W (length (trace s)) c of
        Inl msg \<Rightarrow> Inl (Thrown msg, record_call c (Threw msg) s)
      | Inr ls \<Rightarrow> Inr (ls, record_call c (Logs ls) s))"

definition call_address :: "world \<Rightarrow> call \<Rightarrow> ('a, address) prog" where
  "call_address W c =
     (\<lambda>s. case address_reply W (length (trace s)) c of
        Inl msg \<Rightarrow> Inl (Thrown msg, record_call c (Threw msg) s)
      | Inr a \<Rightarrow> Inr (a, record_call c (Addr a) s))"

text \<open>\<open>await new Promise(resolve => setTimeout(resolve, ms))\<close>\<close>

definition sleep :: "nat \<Rightarrow> ('a, unit) prog" where
  "sleep ms = (\<lambda>s. Inr ((), record_call (Sleep ms) Done s))"

text \<open>\<open>Math.floor(Date.now() / 1000)\<close>\<close>

definition now_seconds :: "world \<Rightarrow> ('a, int) prog" where
  "now_seconds W = (\<lambda>s. Inr (clock W (length (trace s)), s))"

text \<open>BigInt division truncates towards zero.\<close>

definition bigint_div :: "int \<Rightarrow> int \<Rightarrow> int" where
  "bigint_div a b = sgn a * sgn b * (\<bar>a\<bar> div \<bar>b\<bar>)"

text \<open>\<open>gasEstimate * 120n / 100n\<close>\<close>

definition gas_with_buffer :: "int \<Rightarrow> int" where
  "gas_with_buffer gasEstimate = bigint_div (gasEstimate * 120) 100"

subsection \<open>Finding the escrow address in a receipt\<close>

text \<open>
  The loops over \<open>receipt.logs\<close>. A log whose parsing throws is skipped; the first
  event of the wanted name ends the loop with its \<open>args.escrow\<close>.
\<close>

fun find_DstEscrowCreated :: "log list \<Rightarrow> address option" where
  "find_DstEscrowCreated [] = None"
| "find_DstEscrowCreated (Unparsable # logs) = find_DstEscrowCreated logs"
| "find_DstEscrowCreated (Parsed name escrow imm # logs) =
     (if name = ''DstEscrowCreated'' then escrow else find_DstEscrowCreated logs)"

text \<open>
  The source side of the second server and of the multi-fill scripts: for a
  \<open>SrcEscrowCreated\<close> event the address is asked from the factory with the Immutables of
  the event; if that call throws, the catch inside the loop goes on with the next log.
\<close>

fun find_src_escrow :: "world \<Rightarrow> log list \<Rightarrow> ('a, address option) prog" where
  "find_src_escrow W [] = ret None"
| "find_src_escrow W (Unparsable # logs) = find_src_escrow W logs"
| "find_src_escrow W (Parsed name escrow imm # logs) =
     (if name = ''SrcEscrowCreatedDirect'' then ret escrow
      else if name = ''SrcEscrowCreated'' then
        (case imm of
           None \<Rightarrow> find_src_escrow W logs
         | Some i \<Rightarrow>
             try_catch (andThen (call_address W (AddressOfEscrowSrc i)) (\<lambda>a. ret (Some a)))
               (\<lambda>msg. find_src_escrow W logs))
      else find_src_escrow W logs)"

text \<open>
  The source side of the first server: the factory is asked with
  \<open>swapData.srcImmutables\<close>.
\<close>

fun find_src_escrow_v1 :: "world \<Rightarrow> immutables \<Rightarrow> log list \<Rightarrow> ('a, address option) prog" where
  "find_src_escrow_v1 W srcImm [] = ret None"
| "find_src_escrow_v1 W srcImm (Unparsable # logs) = find_src_escrow_v1 W srcImm logs"
| "find_src_escrow_v1 W srcImm (Parsed name escrow imm # logs) =
     (if name = ''SrcEscrowCreatedDirect'' then ret escrow
      else if name = ''SrcEscrowCreated'' then
        try_catch (andThen (call_address W (AddressOfEscrowSrc srcImm)) (\<lambda>a. ret (Some a)))
          (\<lambda>msg. find_src_escrow_v1 W srcImm logs)
      else find_src_escrow_v1 W srcImm logs)"

subsection \<open>Waiting for the maker's allowance\<close>

definition maxAttempts :: nat where
  "maxAttempts = 60"

text \<open>One turn of the polling loop: \<open>True\<close> when the allowance read reached the amount.\<close>

definition poll_once :: "world \<Rightarrow> address \<Rightarrow> address \<Rightarrow> int \<Rightarrow> ('a, bool) prog" where
  "poll_once W owner spender amt =
     try_catch
       (andThen (call_uint W (Allowance Src owner spender)) (\<lambda>allowance.
          if allowance \<ge> amt then ret True
          else andThen (sleep 5000) (\<lambda>_. ret False)))
       (\<lambda>msg. andThen (sleep 5000) (\<lambda>_. ret False))"

text \<open>
  \<^verbatim>\<open>while (!approved && attempts < maxAttempts) { ... attempts++ }\<close>, started with
  \<open>attempts = 0\<close>; the result is \<open>approved\<close>.
\<close>

function wait_for_approval :: "world \<Rightarrow> address \<Rightarrow> address \<Rightarrow> int \<Rightarrow> nat \<Rightarrow> ('a, bool) prog" where
  "wait_for_approval W owner spender amt attempts =
     (if attempts < maxAttempts then
        andThen (poll_once W owner spender amt) (\<lambda>approved.
          if approved then ret True
          else wait_for_approval W owner spender amt (attempts + 1))
      else ret False)"
  by pat_completeness auto

termination
  by (relation "measure (\<lambda>(W, owner, spender, amt, attempts). maxAttempts - attempts)") auto


declare wait_for_approval.simps [simp del]


section \<open>The relayer server: \<open>executeSwapAsync\<close>\<close>

text \<open>
  \<open>activeSwaps\<close> is a \<open>Map\<close> from a swap id to an object, and the parameter \<open>swapData\<close> of
  \<open>executeSwapAsync\<close> is the object that \<open>/api/submit-signed-message\<close> took out of the
  Map: both hold a reference to the one object. An assignment \<open>swapData.x = v\<close> changes
  that object, so it is seen at once through every key under which the Map holds it. The
  objects are therefore kept apart from the references to them.
\<close>

type_synonym ref = nat

record server_state =
  objects :: "ref \<Rightarrow> swap_data"
  activeSwaps :: "string \<rightharpoonup> ref"
  swapData_ref :: ref

text \<open>The object that the parameter \<open>swapData\<close> refers to, as it is now.\<close>

definition swapData :: "server_state \<Rightarrow> swap_data" where
  "swapData st = objects st (swapData_ref st)"

text \<open>
  What \<open>activeSwaps.get(k)\<close> shows at this moment, for every key: the fields of the
  object that the Map holds there. This is the registry that the handlers of the API see.
\<close>

definition registry_of :: "server_state \<Rightarrow> registry" where
  "registry_of st = (\<lambda>k. case activeSwaps st k of None \<Rightarrow> None | Some r \<Rightarrow> Some (objects st r))"

definition get_swapData :: "(server_state, swap_data) prog" where
  "get_swapData = (\<lambda>s. Inr (swapData (store s), s))"

text \<open>\<open>swapData.x = v\<close>: an assignment to fields of the object.\<close>

definition update_swapData :: "(swap_data \<Rightarrow> swap_data) \<Rightarrow> (server_state, unit) prog" where
  "update_swapData f =
     (\<lambda>s. Inr ((), s \<lparr> store := (store s)
        \<lparr> objects := (objects (store s)) (swapData_ref (store s) := f (swapData (store s))) \<rparr> \<rparr>))"

text \<open>\<open>activeSwaps.set(swapData.orderHash, swapData)\<close>: the Map takes the reference.\<close>

definition activeSwaps_set :: "(server_state, unit) prog" where
  "activeSwaps_set =
     (\<lambda>s. Inr ((), s \<lparr> store := (store s)
        \<lparr> activeSwaps := (activeSwaps (store s)) (sd_orderHash (swapData (store s)) \<mapsto> swapData_ref (store s)) \<rparr> \<rparr>))"

text \<open>\<open>swapData.status = st; activeSwaps.set(swapData.orderHash, swapData)\<close>\<close>

definition enter_status :: "string \<Rightarrow> (server_state, unit) prog" where
  "enter_status st = andThen (update_swapData (\<lambda>d. d \<lparr> status := st \<rparr>)) (\<lambda>_. activeSwaps_set)"

subsection \<open>The second server (lines 1075 to 1667)\<close>

text \<open>Step 1: the relayer approves the destination factory.\<close>

definition approve_dst :: "world \<Rightarrow> (server_state, unit) prog" where
  "approve_dst W =
     andThen (enter_status ''approving_dst'') (\<lambda>_.
     andThen get_swapData (\<lambda>sd.
       try_catch
         (andThen (call_uint W (Allowance Dst (relayerAddress W) (dstFactoryAddress sd))) (\<lambda>currentAllowance.
            if currentAllowance < sd_amount sd then
              andThen (call_uint W (BalanceOf Dst (relayerAddress W))) (\<lambda>dstBalance.
                if dstBalance < sd_amount sd then
                  throw (''Insufficient relayer balance on destination chain: ''
                           @ formatUnits6 W dstBalance @ '' USDC'')
                else
                  andThen (call_uint W (EstimateApprove Dst (dstFactoryAddress sd) (sd_amount sd))) (\<lambda>gasEstimate.
                  call_tx W (Approve Dst (dstFactoryAddress sd) (sd_amount sd)
                               (Some (gas_with_buffer gasEstimate)))))
            else ret ()))
         (\<lambda>msg.
            try_catch
              (call_tx W (Approve Dst (dstFactoryAddress sd) (sd_amount sd) (Some 100000)))
              (\<lambda>retryMsg. throw (''Failed to approve USDC on destination chain: '' @ retryMsg)))))"

text \<open>The end of both attempts of step 2: the address from the receipt, or a throw.\<close>

definition dst_escrow_from_receipt :: "world \<Rightarrow> (server_state, address) prog" where
  "dst_escrow_from_receipt W =
     andThen (call_logs W (GetTransactionReceipt Dst)) (\<lambda>logs.
       case find_DstEscrowCreated logs of
         None \<Rightarrow> throw ''Failed to get deployed destination escrow address from transaction logs''
       | Some a \<Rightarrow>
           andThen (update_swapData (\<lambda>d. d \<lparr> dstEscrowAddress := Some a \<rparr>)) (\<lambda>_. ret a))"

text \<open>Step 2: the relayer creates the destination escrow.\<close>

definition create_dst_escrow :: "world \<Rightarrow> (server_state, address) prog" where
  "create_dst_escrow W =
     andThen (enter_status ''creating_dst_escrow'') (\<lambda>_.
     andThen get_swapData (\<lambda>sd.
       try_catch
         (andThen (call_uint W (BalanceOf Dst (relayerAddress W))) (\<lambda>dstBalance.
            if dstBalance < sd_amount sd then
              throw (''Insufficient USDC balance for destination escrow: ''
                       @ formatUnits6 W dstBalance @ '' USDC'')
            else
              andThen (now_seconds W) (\<lambda>t.
              andThen (call_uint W (EstimateCreateDstEscrow (dstImmutables sd) (t + 3600)
                                      (safetyDeposit (dstImmutables sd)))) (\<lambda>gasEstimate.
              andThen (call_tx W (CreateDstEscrow (dstImmutables sd) (t + 3600)
                                    (safetyDeposit (dstImmutables sd))
                                    (Some (gas_with_buffer gasEstimate)))) (\<lambda>_.
              dst_escrow_from_receipt W)))))
         (\<lambda>msg.
            try_catch
              (andThen (now_seconds W) (\<lambda>t.
               andThen (call_tx W (CreateDstEscrow (dstImmutables sd) (t + 3600)
                                     (safetyDeposit (dstImmutables sd)) (Some 300000))) (\<lambda>_.
               dst_escrow_from_receipt W)))
              (\<lambda>retryMsg. throw (''Failed to create destination escrow: '' @ retryMsg)))))"

text \<open>Step 3: wait for the user's allowance to the relayer, or time out.\<close>

definition wait_src_approval :: "world \<Rightarrow> (server_state, unit) prog" where
  "wait_src_approval W =
     andThen (enter_status ''waiting_src_approval'') (\<lambda>_.
     andThen get_swapData (\<lambda>sd.
     andThen (wait_for_approval W (userAddress sd) (relayerAddress W) (sd_amount sd) 0) (\<lambda>approved.
       if \<not> approved then throw ''User approval timeout - user must approve USDC spending''
       else ret ())))"

text \<open>Step 4: pull the user's tokens, then approve the source factory.\<close>

definition transfer_and_approve_src :: "world \<Rightarrow> (server_state, unit) prog" where
  "transfer_and_approve_src W =
     andThen (enter_status ''transferring_usdc'') (\<lambda>_.
     andThen get_swapData (\<lambda>sd.
     andThen
       (try_catch
          (call_tx W (TransferFrom Src (userAddress sd) (relayerAddress W) (sd_amount sd)))
          (\<lambda>msg. throw (''Failed to transfer USDC from user: '' @ msg))) (\<lambda>_.
       try_catch
         (andThen (call_uint W (Allowance Src (relayerAddress W) (srcFactoryAddress sd))) (\<lambda>currentAllowance.
            if currentAllowance < sd_amount sd then
              andThen (call_uint W (EstimateApprove Src (srcFactoryAddress sd) (sd_amount sd))) (\<lambda>gasEstimate.
              call_tx W (Approve Src (srcFactoryAddress sd) (sd_amount sd)
                           (Some (gas_with_buffer gasEstimate))))
            else ret ()))
         (\<lambda>msg.
            try_catch
              (call_tx W (Approve Src (srcFactoryAddress sd) (sd_amount sd) (Some 100000)))
              (\<lambda>retryMsg. throw (''Failed to approve USDC on source chain: '' @ retryMsg))))))"

definition src_escrow_from_receipt :: "world \<Rightarrow> (server_state, address) prog" where
  "src_escrow_from_receipt W =
     andThen (call_logs W (GetTransactionReceipt Src)) (\<lambda>logs.
     andThen (find_src_escrow W logs) (\<lambda>found.
       case found of
         None \<Rightarrow> throw ''Failed to get deployed source escrow address from transaction logs''
       | Some a \<Rightarrow>
           andThen (update_swapData (\<lambda>d. d \<lparr> srcEscrowAddress := Some a \<rparr>)) (\<lambda>_. ret a)))"

text \<open>Step 5: the relayer creates the source escrow.\<close>

definition create_src_escrow :: "world \<Rightarrow> (server_state, address) prog" where
  "create_src_escrow W =
     andThen (enter_status ''creating_src_escrow'') (\<lambda>_.
     andThen get_swapData (\<lambda>sd.
       try_catch
         (andThen (call_uint W (EstimateCreateSrcEscrow (srcImmutables sd)
                                  (safetyDeposit (srcImmutables sd)))) (\<lambda>gasEstimate.
          andThen (call_tx W (CreateSrcEscrow (srcImmutables sd) (safetyDeposit (srcImmutables sd))
                                (Some (gas_with_buffer gasEstimate)))) (\<lambda>_.
          src_escrow_from_receipt W)))
         (\<lambda>msg.
            try_catch
              (andThen (call_tx W (CreateSrcEscrow (srcImmutables sd) (safetyDeposit (srcImmutables sd))
                                     (Some 300000))) (\<lambda>_.
               src_escrow_from_receipt W))
              (\<lambda>retryMsg. throw (''Failed to create source escrow: '' @ retryMsg)))))"

text \<open>Step 6: verify that the funds are locked in both escrows.\<close>

definition verify_funds_locked :: "world \<Rightarrow> address \<Rightarrow> address \<Rightarrow> (server_state, unit) prog" where
  "verify_funds_locked W srcEscrow dstEscrow =
     andThen get_swapData (\<lambda>sd.
     andThen (call_uint W (BalanceOf Src srcEscrow)) (\<lambda>srcEscrowBalance.
     andThen (call_uint W (BalanceOf Dst dstEscrow)) (\<lambda>dstEscrowBalance.
     andThen (call_uint W (GetBalance Src srcEscrow)) (\<lambda>srcEscrowEth.
     andThen (call_uint W (GetBalance Dst dstEscrow)) (\<lambda>dstEscrowEth.
       if srcEscrowBalance \<ge> sd_amount sd \<and> dstEscrowBalance \<ge> sd_amount sd then ret ()
       else throw ''Funds not properly locked in escrow contracts'')))))"

text \<open>
  Steps 8 and 9: withdraw from one escrow with the secret and that side's Immutables; a
  failed attempt is repeated once with a fixed gas limit.
\<close>

definition withdraw_with_retry ::
  "world \<Rightarrow> chain \<Rightarrow> address \<Rightarrow> string \<Rightarrow> immutables \<Rightarrow> string \<Rightarrow> (server_state, unit) prog" where
  "withdraw_with_retry W ch escrow sec imm failure =
     try_catch
       (andThen (call_uint W (BalanceOf ch escrow)) (\<lambda>balanceBefore.
          try_catch
            (andThen (call_uint W (EstimateWithdraw ch escrow [Bytes32 sec, Tuple imm])) (\<lambda>gasEstimate.
             andThen (call_tx W (Withdraw ch escrow [Bytes32 sec, Tuple imm]
                                   (Some (gas_with_buffer gasEstimate)))) (\<lambda>_.
             andThen (call_uint W (BalanceOf ch escrow)) (\<lambda>balanceAfter. ret ()))))
            (\<lambda>msg. call_tx W (Withdraw ch escrow [Bytes32 sec, Tuple imm] (Some 200000)))))
       (\<lambda>msg. throw (failure @ msg))"

definition withdraw_src :: "world \<Rightarrow> address \<Rightarrow> (server_state, unit) prog" where
  "withdraw_src W srcEscrow =
     andThen (enter_status ''withdrawing_src'') (\<lambda>_.
     andThen get_swapData (\<lambda>sd.
       withdraw_with_retry W Src srcEscrow (secret sd) (srcImmutables sd)
         ''Failed to withdraw from source escrow: ''))"

definition withdraw_dst :: "world \<Rightarrow> address \<Rightarrow> (server_state, unit) prog" where
  "withdraw_dst W dstEscrow =
     andThen (enter_status ''withdrawing_dst'') (\<lambda>_.
     andThen get_swapData (\<lambda>sd.
       withdraw_with_retry W Dst dstEscrow (secret sd) (dstImmutables sd)
         ''Failed to withdraw from destination escrow: ''))"

text \<open>Step 10 and the end of the try block.\<close>

definition transfer_to_user :: "world \<Rightarrow> (server_state, unit) prog" where
  "transfer_to_user W =
     andThen get_swapData (\<lambda>sd.
       try_catch
         (call_tx W (Transfer Dst (userAddress sd) (sd_amount sd)))
         (\<lambda>msg. throw (''Failed to transfer tokens to user: '' @ msg)))"

text \<open>\<open>new Date().toISOString()\<close>\<close>

definition iso_now :: "world \<Rightarrow> ('a, string) prog" where
  "iso_now W = (\<lambda>s. Inr (isoNow W (length (trace s)), s))"

definition mark_completed :: "world \<Rightarrow> (server_state, unit) prog" where
  "mark_completed W =
     andThen (iso_now W) (\<lambda>t.
     andThen (update_swapData (\<lambda>d. d \<lparr> status := ''completed'', completedAt := Some t \<rparr>)) (\<lambda>_.
     activeSwaps_set))"

text \<open>The three parts of the try block: up to both escrows, the check, the release.\<close>

definition lock_funds :: "world \<Rightarrow> (server_state, address \<times> address) prog" where
  "lock_funds W =
     andThen (approve_dst W) (\<lambda>_.
     andThen (create_dst_escrow W) (\<lambda>dstEscrow.
     andThen (wait_src_approval W) (\<lambda>_.
     andThen (transfer_and_approve_src W) (\<lambda>_.
     andThen (create_src_escrow W) (\<lambda>srcEscrow.
     ret (srcEscrow, dstEscrow))))))"

definition release_funds :: "world \<Rightarrow> address \<Rightarrow> address \<Rightarrow> (server_state, unit) prog" where
  "release_funds W srcEscrow dstEscrow =
     andThen (sleep 10000) (\<lambda>_.
     andThen (withdraw_src W srcEscrow) (\<lambda>_.
     andThen (withdraw_dst W dstEscrow) (\<lambda>_.
     andThen (transfer_to_user W) (\<lambda>_.
     mark_completed W))))"

definition swap_steps :: "world \<Rightarrow> (server_state, unit) prog" where
  "swap_steps W =
     andThen (lock_funds W) (\<lambda>(srcEscrow, dstEscrow).
     andThen (verify_funds_locked W srcEscrow dstEscrow) (\<lambda>_.
     release_funds W srcEscrow dstEscrow))"

text \<open>
  \<^verbatim>\<open>catch (error) { swapData.status = 'failed'; swapData.error = error.message;
     activeSwaps.set(swapData.orderHash, swapData) }\<close>
\<close>

definition on_failure :: "string \<Rightarrow> (server_state, unit) prog" where
  "on_failure msg =
     andThen (update_swapData (\<lambda>d. d \<lparr> status := ''failed'', error := Some msg \<rparr>)) (\<lambda>_. activeSwaps_set)"

definition end_state :: "(abrupt \<times> 'a exec) + ('r \<times> 'a exec) \<Rightarrow> 'a exec" where
  "end_state r = (case r of Inl (e, s) \<Rightarrow> s | Inr (x, s) \<Rightarrow> s)"

text \<open>
  A call \<open>executeSwapAsync(swapData)\<close> starts from the server's memory and the reference
  it is given, with nothing done on the ledgers yet.
\<close>

definition start :: "server_state \<Rightarrow> server_state exec" where
  "start st = \<lparr> store = st, trace = [] \<rparr>"

definition executeSwapAsync :: "world \<Rightarrow> server_state \<Rightarrow> server_state exec" where
  "executeSwapAsync W st = end_state (try_catch (swap_steps W) on_failure (start st))"

subsection \<open>The first server (lines 448 to 613)\<close>

definition approve_dst_v1 :: "world \<Rightarrow> (server_state, unit) prog" where
  "approve_dst_v1 W =
     andThen (enter_status ''approving_dst'') (\<lambda>_.
     andThen get_swapData (\<lambda>sd.
     andThen (call_uint W (BalanceOf Dst (relayerAddress W))) (\<lambda>dstBalance.
       if dstBalance < sd_amount sd then
         throw (''Insufficient relayer balance on destination chain: ''
                  @ formatUnits6 W dstBalance @ '' USDC'')
       else call_tx W (Approve Dst (dstFactoryAddress sd) (sd_amount sd) None))))"

text \<open>Here \<open>createDstEscrowTx.wait()\<close> gives the receipt: the call's reply is its logs.\<close>

definition create_dst_escrow_v1 :: "world \<Rightarrow> (server_state, address) prog" where
  "create_dst_escrow_v1 W =
     andThen (enter_status ''creating_dst_escrow'') (\<lambda>_.
     andThen get_swapData (\<lambda>sd.
     andThen (now_seconds W) (\<lambda>t.
     andThen (call_logs W (CreateDstEscrow (dstImmutables sd) (t + 3600)
                             (safetyDeposit (dstImmutables sd)) None)) (\<lambda>logs.
       case find_DstEscrowCreated logs of
         None \<Rightarrow> throw ''Could not find destination escrow address''
       | Some a \<Rightarrow>
           andThen (update_swapData (\<lambda>d. d \<lparr> dstEscrowAddress := Some a \<rparr>)) (\<lambda>_. ret a)))))"

text \<open>The allowance polled here is the one given to the source factory.\<close>

definition wait_src_approval_v1 :: "world \<Rightarrow> (server_state, unit) prog" where
  "wait_src_approval_v1 W =
     andThen (enter_status ''waiting_src_approval'') (\<lambda>_.
     andThen get_swapData (\<lambda>sd.
     andThen (wait_for_approval W (userAddress sd) (srcFactoryAddress sd) (sd_amount sd) 0) (\<lambda>approved.
       if \<not> approved then throw ''User approval timeout''
       else ret ())))"

definition create_src_escrow_v1 :: "world \<Rightarrow> (server_state, address) prog" where
  "create_src_escrow_v1 W =
     andThen (enter_status ''creating_src_escrow'') (\<lambda>_.
     andThen get_swapData (\<lambda>sd.
     andThen (call_logs W (CreateSrcEscrow (srcImmutables sd) (safetyDeposit (srcImmutables sd)) None)) (\<lambda>logs.
     andThen (find_src_escrow_v1 W (srcImmutables sd) logs) (\<lambda>found.
       case found of
         None \<Rightarrow> throw ''Could not find source escrow address''
       | Some a \<Rightarrow>
           andThen (update_swapData (\<lambda>d. d \<lparr> srcEscrowAddress := Some a \<rparr>)) (\<lambda>_. ret a)))))"

definition withdraw_src_v1 :: "world \<Rightarrow> address \<Rightarrow> (server_state, unit) prog" where
  "withdraw_src_v1 W srcEscrow =
     andThen (enter_status ''withdrawing_src'') (\<lambda>_.
     andThen get_swapData (\<lambda>sd.
       call_tx W (Withdraw Src srcEscrow [Bytes32 (secret sd), Tuple (srcImmutables sd)] None)))"

definition withdraw_dst_v1 :: "world \<Rightarrow> address \<Rightarrow> (server_state, unit) prog" where
  "withdraw_dst_v1 W dstEscrow =
     andThen (enter_status ''withdrawing_dst'') (\<lambda>_.
     andThen get_swapData (\<lambda>sd.
       call_tx W (Withdraw Dst dstEscrow [Bytes32 (secret sd), Tuple (dstImmutables sd)] None)))"

definition transfer_to_user_v1 :: "world \<Rightarrow> (server_state, unit) prog" where
  "transfer_to_user_v1 W =
     andThen get_swapData (\<lambda>sd. call_tx W (Transfer Dst (userAddress sd) (sd_amount sd)))"

definition lock_funds_v1 :: "world \<Rightarrow> (server_state, address \<times> address) prog" where
  "lock_funds_v1 W =
     andThen (approve_dst_v1 W) (\<lambda>_.
     andThen (create_dst_escrow_v1 W) (\<lambda>dstEscrow.
     andThen (wait_src_approval_v1 W) (\<lambda>_.
     andThen (create_src_escrow_v1 W) (\<lambda>srcEscrow.
     ret (srcEscrow, dstEscrow)))))"

definition release_funds_v1 :: "world \<Rightarrow> address \<Rightarrow> address \<Rightarrow> (server_state, unit) prog" where
  "release_funds_v1 W srcEscrow dstEscrow =
     andThen (sleep 10000) (\<lambda>_.
     andThen (withdraw_src_v1 W srcEscrow) (\<lambda>_.
     andThen (withdraw_dst_v1 W dstEscrow) (\<lambda>_.
     andThen (transfer_to_user_v1 W) (\<lambda>_.
     mark_completed W))))"

text \<open>Nothing stands between the creation of the source escrow and the release.\<close>

definition swap_steps_v1 :: "world \<Rightarrow> (server_state, unit) prog" where
  "swap_steps_v1 W =
     andThen (lock_funds_v1 W) (\<lambda>(srcEscrow, dstEscrow).
     release_funds_v1 W srcEscrow dstEscrow)"

definition executeSwapAsync_v1 :: "world \<Rightarrow> server_state \<Rightarrow> server_state exec" where
  "executeSwapAsync_v1 W st = end_state (try_catch (swap_steps_v1 W) on_failure (start st))"


section \<open>The multi-fill script: \<open>performMultipleFillCrossChainSwap\<close>\<close>

text \<open>
  What the script takes from its two chain set-ups, from the random generator and from
  the SDK (\<open>tests/custom-sdk.js\<close>, not part of the sources): the user and factory
  addresses, the i-th random secret, \<open>Sdk.HashLock.hashSecret\<close>,
  \<open>Sdk.HashLock.getMerkleLeaves\<close>, \<open>Sdk.HashLock.getProof\<close> and
  \<open>order.toSrcImmutables(chainId, taker, amount, hashlock)\<close>.
\<close>

record fill_env =
  srcUser :: address
  dstUser :: address
  srcEscrowFactory :: address
  dstEscrowFactory :: address
  randomSecret :: "nat \<Rightarrow> string"
  hashSecret :: "string \<Rightarrow> string"
  getMerkleLeaves :: "string list \<Rightarrow> string list"
  getProof :: "string list \<Rightarrow> nat \<Rightarrow> string list"
  toSrcImmutables :: "address \<Rightarrow> int \<Rightarrow> string \<Rightarrow> immutables"

text \<open>\<open>Array.from({length: 11}).map(() => uint8ArrayToHex(randomBytes(32)))\<close>\<close>

definition secrets :: "fill_env \<Rightarrow> string list" where
  "secrets E = map (randomSecret E) [0..<11]"

definition secretHashes :: "fill_env \<Rightarrow> string list" where
  "secretHashes E = map (hashSecret E) (secrets E)"

definition leaves :: "fill_env \<Rightarrow> string list" where
  "leaves E = getMerkleLeaves E (secrets E)"

text \<open>\<open>idx = secrets.length - 1\<close>: the last of the eleven.\<close>

definition idx :: "fill_env \<Rightarrow> nat" where
  "idx E = length (secrets E) - 1"

text \<open>\<open>secrets[idx]\<close> and \<open>secretHashes[idx]\<close>; the index is within the eleven.\<close>

definition selectedSecret :: "fill_env \<Rightarrow> string" where
  "selectedSecret E = secrets E ! idx E"

definition selectedSecretHash :: "fill_env \<Rightarrow> string" where
  "selectedSecretHash E = secretHashes E ! idx E"

text \<open>\<open>const proof = Sdk.HashLock.getProof(leaves, idx)\<close>; the script prints its length.\<close>

definition merkle_proof :: "fill_env \<Rightarrow> string list" where
  "merkle_proof E = getProof E (leaves E) (idx E)"

text \<open>\<open>ethers.parseUnits('0.5', 6)\<close>: the order amount, filled in full.\<close>

definition fillAmount :: int where
  "fillAmount = 500000"

definition fill_srcImmutables :: "fill_env \<Rightarrow> int \<Rightarrow> immutables" where
  "fill_srcImmutables E currentTimestamp =
     (let srcImmutablesRaw = toSrcImmutables E (srcUser E) fillAmount (selectedSecretHash E) in
      srcImmutablesOf srcImmutablesRaw parseEther_0_001
        (timelocksWithDeployedAt (timelocks srcImmutablesRaw) currentTimestamp))"

text \<open>The script runs Arbitrum Sepolia to Sepolia: the destination token is the configuration's source USDC.\<close>

definition fill_dstImmutables :: "config \<Rightarrow> fill_env \<Rightarrow> int \<Rightarrow> immutables" where
  "fill_dstImmutables cfg E currentTimestamp =
     dstImmutablesOf (fill_srcImmutables E currentTimestamp) (dstUser E) (srcUSDC cfg) fillAmount
       parseEther_0_001 (timelocks (fill_srcImmutables E currentTimestamp))"

text \<open>
  Approve a factory when the allowance is short; a failed attempt is repeated once with
  a fixed gas limit, and the function returns if that fails too.
\<close>

definition approve_or_return :: "world \<Rightarrow> chain \<Rightarrow> address \<Rightarrow> address \<Rightarrow> int \<Rightarrow> (unit, unit) prog" where
  "approve_or_return W ch owner spender amt =
     try_catch
       (andThen (call_uint W (Allowance ch owner spender)) (\<lambda>currentAllowance.
          if currentAllowance < amt then
            andThen (call_uint W (EstimateApprove ch spender amt)) (\<lambda>gasEstimate.
            call_tx W (Approve ch spender amt (Some (gas_with_buffer gasEstimate))))
          else ret ()))
       (\<lambda>msg.
          try_catch (call_tx W (Approve ch spender amt (Some 100000)))
            (\<lambda>retryMsg. return_early))"

text \<open>After the source escrow's creation: the block of the receipt, then the address from the logs.\<close>

definition src_escrow_of_logs :: "world \<Rightarrow> log list \<Rightarrow> (unit, address) prog" where
  "src_escrow_of_logs W logs =
     andThen (call_uint W (GetBlock Src)) (\<lambda>srcDeployedAt.
     andThen (find_src_escrow W logs) (\<lambda>found.
       case found of
         None \<Rightarrow> throw ''Failed to get deployed source escrow address from transaction logs''
       | Some a \<Rightarrow> ret a))"

definition fill_create_src_escrow :: "world \<Rightarrow> immutables \<Rightarrow> (unit, address) prog" where
  "fill_create_src_escrow W srcImm =
     try_catch
       (andThen (call_uint W (EstimateCreateSrcEscrow srcImm parseEther_0_001)) (\<lambda>gasEstimate.
        andThen (call_logs W (CreateSrcEscrow srcImm parseEther_0_001 (Some (gas_with_buffer gasEstimate)))) (\<lambda>logs.
        src_escrow_of_logs W logs)))
       (\<lambda>msg.
          try_catch
            (andThen (call_logs W (CreateSrcEscrow srcImm parseEther_0_001 (Some 300000))) (\<lambda>logs.
             src_escrow_of_logs W logs))
            (\<lambda>retryMsg. return_early))"

text \<open>
  One withdrawal of the script: balance, gas estimate, \<open>withdraw(selectedSecret, immutables)\<close>,
  balance; on a throw one more \<open>withdraw\<close> with a fixed gas limit, whose failure is only
  printed.
\<close>

definition fill_withdraw :: "world \<Rightarrow> chain \<Rightarrow> address \<Rightarrow> string \<Rightarrow> immutables \<Rightarrow> (unit, unit) prog" where
  "fill_withdraw W ch escrow sec imm =
     try_catch
       (andThen (call_uint W (BalanceOf ch escrow)) (\<lambda>balanceBefore.
        andThen (call_uint W (EstimateWithdraw ch escrow [Bytes32 sec, Tuple imm])) (\<lambda>gasEstimate.
        andThen (call_tx W (Withdraw ch escrow [Bytes32 sec, Tuple imm]
                              (Some (gas_with_buffer gasEstimate)))) (\<lambda>_.
        andThen (call_uint W (BalanceOf ch escrow)) (\<lambda>balanceAfter. ret ())))))
       (\<lambda>msg.
          try_catch (call_tx W (Withdraw ch escrow [Bytes32 sec, Tuple imm] (Some 200000)))
            (\<lambda>retryMsg. ret ()))"

definition final_verification :: "world \<Rightarrow> fill_env \<Rightarrow> address \<Rightarrow> address \<Rightarrow> (unit, unit) prog" where
  "final_verification W E srcEscrow dstEscrow =
     andThen (call_uint W (BalanceOf Src (srcUser E))) (\<lambda>finalSrcBalance.
     andThen (call_uint W (BalanceOf Dst (dstUser E))) (\<lambda>finalDstBalance.
     andThen (call_uint W (BalanceOf Src srcEscrow)) (\<lambda>finalSrcEscrowBalance.
     andThen (call_uint W (BalanceOf Dst dstEscrow)) (\<lambda>finalDstEscrowBalance.
     andThen (call_uint W (GetBalance Src srcEscrow)) (\<lambda>finalSrcEscrowEth.
     andThen (call_uint W (GetBalance Dst dstEscrow)) (\<lambda>finalDstEscrowEth. ret ()))))))"

text \<open>
  The withdrawal phase, inside the try block that created the destination escrow: the
  destination escrow first ("Step 1"), with the Immutables re-stamped with the block time
  of its creation, then the source escrow ("Step 2") with the original source Immutables.
\<close>

definition withdrawal_phase ::
  "world \<Rightarrow> fill_env \<Rightarrow> immutables \<Rightarrow> immutables \<Rightarrow> address \<Rightarrow> address \<Rightarrow> int \<Rightarrow> (unit, unit) prog" where
  "withdrawal_phase W E srcImm dstImm srcEscrow dstEscrow dstDeployedAt =
     (let dstImmutablesWithDeployedAt =
            dstImm \<lparr> timelocks := timelocksWithDeployedAt (timelocks dstImm) dstDeployedAt \<rparr> in
      andThen (sleep 11000) (\<lambda>_.
      andThen (fill_withdraw W Dst dstEscrow (selectedSecret E) dstImmutablesWithDeployedAt) (\<lambda>_.
      andThen (fill_withdraw W Src srcEscrow (selectedSecret E) srcImm) (\<lambda>_.
      final_verification W E srcEscrow dstEscrow))))"

text \<open>
  The last try block: create the destination escrow and, in the same block, withdraw. Its
  catch sends \<open>createDstEscrow\<close> once more, whatever statement of the block threw.
\<close>

definition create_dst_and_withdraw ::
  "world \<Rightarrow> fill_env \<Rightarrow> immutables \<Rightarrow> immutables \<Rightarrow> address \<Rightarrow> (unit, unit) prog" where
  "create_dst_and_withdraw W E srcImm dstImm srcEscrow =
     try_catch
       (andThen (call_uint W (BalanceOf Dst (dstUser E))) (\<lambda>dstBalance.
          if dstBalance < fillAmount then return_early
          else
            andThen (now_seconds W) (\<lambda>t.
            andThen (call_uint W (EstimateCreateDstEscrow dstImm (t + 3600) parseEther_0_001)) (\<lambda>gasEstimate.
            andThen (call_logs W (CreateDstEscrow dstImm (t + 3600) parseEther_0_001
                                    (Some (gas_with_buffer gasEstimate)))) (\<lambda>logs.
            andThen (call_uint W (GetBlock Dst)) (\<lambda>dstDeployedAt.
              case find_DstEscrowCreated logs of
                None \<Rightarrow> throw ''Failed to get deployed destination escrow address from transaction logs''
              | Some dstEscrow \<Rightarrow>
                  withdrawal_phase W E srcImm dstImm srcEscrow dstEscrow dstDeployedAt))))))
       (\<lambda>msg.
          try_catch
            (andThen (now_seconds W) (\<lambda>t.
             andThen (call_logs W (CreateDstEscrow dstImm (t + 3600) parseEther_0_001 (Some 300000))) (\<lambda>_.
             ret ())))
            (\<lambda>retryMsg. return_early))"

definition initial_balances :: "world \<Rightarrow> fill_env \<Rightarrow> (unit, unit) prog" where
  "initial_balances W E =
     andThen (call_uint W (BalanceOf Src (srcUser E))) (\<lambda>initialSrcBalance.
     andThen (call_uint W (BalanceOf Dst (dstUser E))) (\<lambda>initialDstBalance.
     andThen (call_uint W (GetBalance Src (srcUser E))) (\<lambda>initialSrcEth.
     andThen (call_uint W (GetBalance Dst (dstUser E))) (\<lambda>initialDstEth. ret ()))))"

definition performMultipleFillCrossChainSwap :: "world \<Rightarrow> config \<Rightarrow> fill_env \<Rightarrow> (unit, unit) prog" where
  "performMultipleFillCrossChainSwap W cfg E =
     andThen (initial_balances W E) (\<lambda>_.
     andThen (now_seconds W) (\<lambda>currentTimestamp.
       let srcImm = fill_srcImmutables E currentTimestamp;
           dstImm = fill_dstImmutables cfg E currentTimestamp in
       andThen (approve_or_return W Src (srcUser E) (srcEscrowFactory E) fillAmount) (\<lambda>_.
       andThen (fill_create_src_escrow W srcImm) (\<lambda>srcEscrow.
       andThen (approve_or_return W Dst (dstUser E) (dstEscrowFactory E) fillAmount) (\<lambda>_.
       create_dst_and_withdraw W E srcImm dstImm srcEscrow)))))"

text \<open>The trace of a run of the script.\<close>

definition fill_trace :: "world \<Rightarrow> config \<Rightarrow> fill_env \<Rightarrow> (call \<times> reply) list" where
  "fill_trace W cfg E =
     trace (end_state (performMultipleFillCrossChainSwap W cfg E \<lparr> store = (), trace = [] \<rparr>))"


section \<open>The script \<open>scripts/arb-sep-mul-fixed.js\<close>\<close>

text \<open>
  The script is an ES module: a reference to an identifier that no enclosing scope binds
  throws a ReferenceError when it is evaluated. The bindings of the module (imports,
  constants and functions), the host's globals that the script uses, and the parameters
  and constants of \<open>performMultipleFillCrossChainSwap\<close> declared before the signing step
  (line 366).
\<close>

definition module_bindings :: "string list" where
  "module_bindings =
     [''ethers'', ''Sdk'', ''config'', ''uint8ArrayToHex'', ''randomBytes'', ''UINT_40_MAX'',
      ''readFileSync'', ''writeFileSync'', ''existsSync'', ''fileURLToPath'', ''dirname'', ''join'',
      ''readline'', ''__filename'', ''__dirname'', ''promptUser'', ''factoryContract'',
      ''resolverContractArtifact'', ''ERC20_ABI'', ''ESCROW_FACTORY_ABI'', ''ESCROW_ABI'',
      ''loadDeployedContracts'', ''saveDeployedContracts'', ''countdown'', ''testRpcConnection'',
      ''main'', ''setupChain'', ''deployContracts'', ''performMultipleFillCrossChainSwap'']"

definition host_globals :: "string list" where
  "host_globals =
     [''console'', ''process'', ''Math'', ''Date'', ''BigInt'', ''Array'', ''JSON'', ''Promise'',
      ''Error'', ''setInterval'', ''clearInterval'', ''setTimeout'']"

definition signing_locals :: "string list" where
  "signing_locals =
     [''srcChain'', ''dstChain'', ''swapAmount'', ''safetyDeposit'', ''initialSrcBalance'',
      ''initialDstBalance'', ''initialSrcEth'', ''initialDstEth'', ''secrets'', ''secretHashes'',
      ''leaves'', ''idx'', ''selectedSecret'', ''selectedSecretHash'', ''currentTime'',
      ''htlcTimeout'', ''htlcExpiry'', ''order'', ''orderHash'']"

definition signing_scope :: "string list" where
  "signing_scope = signing_locals @ module_bindings @ host_globals"

text \<open>
  The identifiers that \<open>const orderData = ethers.solidityPacked([...], [orderHash,
  order.orderParams.maker, order.orderParams.takerAsset, order.orderParams.makingAmount,
  order.orderParams.takingAmount, auctionStartTimestamp])\<close> evaluates, in order.
\<close>

definition orderData_identifiers :: "string list" where
  "orderData_identifiers =
     [''ethers'', ''orderHash'', ''order'', ''order'', ''order'', ''order'', ''auctionStartTimestamp'']"

fun resolve_all :: "string list \<Rightarrow> string list \<Rightarrow> ('a, unit) prog" where
  "resolve_all scope [] = ret ()"
| "resolve_all scope (x # xs) =
     (if x \<in> set scope then resolve_all scope xs else throw (x @ '' is not defined''))"

text \<open>
  The function up to the signing step: the four initial balance reads, then the order
  data. The statements after it (lines 379 to 1133: signing, approvals, the creation of
  both escrows, the withdrawals) are the parameter \<open>rest\<close>.
\<close>

definition performMultipleFillCrossChainSwap_fixed :: "world \<Rightarrow> fill_env \<Rightarrow> (unit, unit) prog \<Rightarrow> (unit, unit) prog" where
  "performMultipleFillCrossChainSwap_fixed W E rest =
     andThen (initial_balances W E) (\<lambda>_.
     andThen (resolve_all signing_scope orderData_identifiers) (\<lambda>_.
     rest))"


section \<open>Predicates on calls and traces\<close>

text \<open>Calls that hand the secret to an escrow: \<open>withdraw\<close> and its gas estimate.\<close>

fun is_withdraw :: "call \<Rightarrow> bool" where
  "is_withdraw (Withdraw ch escrow args gas) = True"
| "is_withdraw (EstimateWithdraw ch escrow args) = True"
| "is_withdraw _ = False"


fun is_withdraw_on :: "chain \<Rightarrow> call \<Rightarrow> bool" where
  "is_withdraw_on ch (Withdraw ch' escrow args gas) = (ch' = ch)"
| "is_withdraw_on ch (EstimateWithdraw ch' escrow args) = (ch' = ch)"
| "is_withdraw_on ch c = False"


text \<open>Calls that create the source escrow, or estimate its gas.\<close>

fun is_create_src :: "call \<Rightarrow> bool" where
  "is_create_src (CreateSrcEscrow imm v gas) = True"
| "is_create_src (EstimateCreateSrcEscrow imm v) = True"
| "is_create_src _ = False"


text \<open>A withdrawal call is addressed to the escrow of its own side.\<close>

fun withdraws_from :: "address \<Rightarrow> address \<Rightarrow> call \<Rightarrow> bool" where
  "withdraws_from src dst (Withdraw ch escrow args gas) = (escrow = (case ch of Src \<Rightarrow> src | Dst \<Rightarrow> dst))"
| "withdraws_from src dst (EstimateWithdraw ch escrow args) = (escrow = (case ch of Src \<Rightarrow> src | Dst \<Rightarrow> dst))"
| "withdraws_from src dst c = True"


fun is_balance_read :: "call \<Rightarrow> bool" where
  "is_balance_read (BalanceOf ch a) = True"
| "is_balance_read (GetBalance ch a) = True"
| "is_balance_read c = False"


text \<open>No call that satisfies \<open>B\<close> occurs before the first occurrence of the entry \<open>a\<close>.\<close>

fun preceded_by :: "(call \<times> reply) \<Rightarrow> (call \<Rightarrow> bool) \<Rightarrow> (call \<times> reply) list \<Rightarrow> bool" where
  "preceded_by a B [] = True"
| "preceded_by a B (e # es) = (if e = a then True else \<not> B (fst e) \<and> preceded_by a B es)"


text \<open>What a withdrawal call of the script carries: the secret and one Immutables tuple, nothing else.\<close>

fun is_secret_and_tuple :: "string \<Rightarrow> abi_arg list \<Rightarrow> bool" where
  "is_secret_and_tuple sec [Bytes32 s, Tuple imm] = (s = sec)"
| "is_secret_and_tuple sec args = False"

fun withdraw_args :: "call \<Rightarrow> abi_arg list option" where
  "withdraw_args (Withdraw ch escrow args gas) = Some args"
| "withdraw_args (EstimateWithdraw ch escrow args) = Some args"
| "withdraw_args c = None"

definition secret_and_immutables_only :: "string \<Rightarrow> call \<Rightarrow> bool" where
  "secret_and_immutables_only sec c =
     (case withdraw_args c of None \<Rightarrow> True | Some args \<Rightarrow> is_secret_and_tuple sec args)"

definition supplies_proof :: "string list \<Rightarrow> call \<Rightarrow> bool" where
  "supplies_proof p c =
     (case withdraw_args c of None \<Rightarrow> False | Some args \<Rightarrow> Bytes32Array p \<in> set args)"


text \<open>The trace of \<open>k\<close> failed turns of the polling loop, the first call being number \<open>n\<close>.\<close>

definition uint_as_reply :: "string + int \<Rightarrow> reply" where
  "uint_as_reply x = (case x of Inl msg \<Rightarrow> Threw msg | Inr v \<Rightarrow> Uint v)"

fun failed_polls :: "world \<Rightarrow> call \<Rightarrow> nat \<Rightarrow> nat \<Rightarrow> (call \<times> reply) list" where
  "failed_polls W c n 0 = []"
| "failed_polls W c n (Suc k) =
     (c, uint_as_reply (uint_reply W n c)) # (Sleep 5000, Done) # failed_polls W c (n + 2) k"


text \<open>The fields of a swap that no step of the orchestration assigns.\<close>

definition core :: "swap_data \<Rightarrow> string \<times> string \<times> int \<times> address \<times> immutables \<times> immutables \<times> address \<times> address" where
  "core d = (sd_orderHash d, secret d, sd_amount d, userAddress d, srcImmutables d, dstImmutables d,
             srcFactoryAddress d, dstFactoryAddress d)"


text \<open>
  A part of the server's orchestration only appends calls that satisfy \<open>P\<close> to the
  trace, leaves the core fields of the swap alone and never returns early.
\<close>

definition server_ok :: "(call \<Rightarrow> bool) \<Rightarrow> (server_state, 'r) prog \<Rightarrow> bool" where
  "server_ok P m \<longleftrightarrow>
     (\<forall>s. (\<exists>new. trace (end_state (m s)) = trace s @ new \<and> list_all (\<lambda>e. P (fst e)) new)
        \<and> core (swapData (store (end_state (m s)))) = core (swapData (store s))
        \<and> (\<forall>s'. m s \<noteq> Inl (Returned, s')))"


text \<open>
  The Map holds the object of the running swap under the key \<open>k\<close>, which is the object's
  own orderHash, and the object satisfies \<open>P\<close>.
\<close>

definition holds_entry :: "string \<Rightarrow> (swap_data \<Rightarrow> bool) \<Rightarrow> server_state \<Rightarrow> bool" where
  "holds_entry k P st \<longleftrightarrow>
     activeSwaps st k = Some (swapData_ref st) \<and> sd_orderHash (swapData st) = k \<and> P (swapData st)"

text \<open>
  Started in a memory that satisfies \<open>I\<close>, a part of the orchestration ends, normally or
  by a throw, in a memory that satisfies \<open>J\<close>.
\<close>

definition leads :: "(server_state \<Rightarrow> bool) \<Rightarrow> (server_state \<Rightarrow> bool) \<Rightarrow> (server_state, 'r) prog \<Rightarrow> bool" where
  "leads I J m \<longleftrightarrow> (\<forall>s. I (store s) \<longrightarrow> J (store (end_state (m s))))"

text \<open>Whenever a part ends normally, its value and the memory it leaves satisfy \<open>Q\<close>.\<close>

definition returns :: "('r \<Rightarrow> server_state \<Rightarrow> bool) \<Rightarrow> (server_state, 'r) prog \<Rightarrow> bool" where
  "returns Q m \<longleftrightarrow> (\<forall>s x s'. m s = Inr (x, s') \<longrightarrow> Q x (store s'))"


text \<open>A part of a script only appends calls that satisfy \<open>P\<close> to the trace.\<close>

definition emits :: "(call \<Rightarrow> bool) \<Rightarrow> ('a, 'r) prog \<Rightarrow> bool" where
  "emits P m \<longleftrightarrow> (\<forall>s. \<exists>new. trace (end_state (m s)) = trace s @ new \<and> list_all (\<lambda>e. P (fst e)) new)"


section \<open>Sample inputs\<close>

text \<open>
  A packed timelocks value for the sample run of the multi-fill script. What
  \<open>Sdk.TimeLocks.new\<close> builds from the script's offsets is decided by the SDK, which is
  not part of the sources; the steps of the script only pass the value on.
\<close>

definition script_timelocks :: int where
  "script_timelocks = push_bit 32 10 + push_bit 64 120 + push_bit 96 121 + push_bit 128 122
     + push_bit 160 10 + push_bit 192 100 + push_bit 224 101"

definition sample_config :: config where
  "sample_config = \<lparr> srcChainId = 11155111, dstChainId = 421614, srcUSDC = 0x1111, dstUSDC = 0x2222 \<rparr>"

definition sample_request :: create_order_request where
  "sample_request = \<lparr> req_userAddress = 0xABCD, req_srcFactoryAddress = 0x5001,
     req_dstFactoryAddress = 0x5002 \<rparr>"

text \<open>
  What \<open>order.toSrcImmutables(chainId, userAddress, swapAmount, hashlock)\<close> is taken to
  return here: the taker, the amount and the hashlock it was called with.
\<close>

definition sample_raw :: immutables where
  "sample_raw = \<lparr> orderHash = ''0xaa'', hashlock = ''0xbb'', maker = 0xABCD, taker = 0xABCD,
     token = 0x1111, amount = 100000, safetyDeposit = 0, timelocks = 0 \<rparr>"

text \<open>
  Stand-ins for \<open>ethers.solidityPacked\<close> and \<open>ethers.keccak256\<close> in concrete runs of the
  address calculation; the general statements take the two functions as parameters.
\<close>

definition sample_solidityPacked :: "string \<Rightarrow> address \<Rightarrow> string" where
  "sample_solidityPacked oh user = oh @ (if user = 0xABCD then ''abcd'' else ''0000'')"

definition sample_keccak256 :: "string \<Rightarrow> string" where
  "sample_keccak256 packed = rev packed"

definition sample_order_env :: order_env where
  "sample_order_env = \<lparr> env_secret = ''0x5ec2e7'', env_hashlock = ''0xbb'', env_swapAmount = 100000,
     env_orderHash = ''0xaa'', env_srcImmutablesRaw = sample_raw, env_currentTimestamp = 1700000000,
     env_createdAt = ''2023-11-14T22:13:20.000Z'', env_nonce = 7 \<rparr>"

text \<open>A registry entry of a swap that failed with the given message after the destination escrow was recorded.\<close>

definition failed_entry :: "string \<Rightarrow> swap_data" where
  "failed_entry msg = (create_order_entry sample_config sample_request sample_order_env)
     \<lparr> status := ''failed'', dstEscrowAddress := Some 0xD57E5C, error := Some msg \<rparr>"

text \<open>A swap whose signed message was accepted by \<open>/api/submit-signed-message\<close>.\<close>

definition sample_swap :: swap_data where
  "sample_swap = (create_order_entry sample_config sample_request sample_order_env)
     \<lparr> status := ''signature_received'', signature := Some ''0x51'' \<rparr>"

text \<open>An earlier swap of the same user, completed, with another orderHash.\<close>

definition other_swap :: swap_data where
  "other_swap = sample_swap \<lparr> sd_orderHash := ''0x99'', status := ''completed'' \<rparr>"

definition sample_registry :: registry where
  "sample_registry = [''0x99'' \<mapsto> other_swap]"

text \<open>
  The server's memory when \<open>executeSwapAsync\<close> is called for the sample swap: its object
  is held by the Map under its orderHash and by the parameter, and the Map also holds the
  object of the earlier swap.
\<close>

definition sample_server :: server_state where
  "sample_server = \<lparr> objects = (\<lambda>r. if r = 0 then sample_swap else other_swap),
       activeSwaps = [''0xaa'' \<mapsto> 0, ''0x99'' \<mapsto> 1], swapData_ref = 0 \<rparr>"

text \<open>
  A world in which every transaction is mined, each factory logs the creation of its
  escrow, the user has approved the amount, the relayer holds 5 USDC on the destination
  chain, and no token has reached either escrow: every other balance reads 0.
\<close>

definition unfunded_world :: world where
  "unfunded_world =
     \<lparr> uint_reply = (\<lambda>n c. case c of
          Allowance ch owner spender \<Rightarrow> Inr (case ch of Src \<Rightarrow> 100000 | Dst \<Rightarrow> 0)
        | BalanceOf ch a \<Rightarrow> Inr (if ch = Dst \<and> a = 0xE1A7 then 5000000 else 0)
        | GetBalance ch a \<Rightarrow> Inr 0
        | _ \<Rightarrow> Inr 200000),
       tx_reply = (\<lambda>n c. Inr ()),
       logs_reply = (\<lambda>n c. case c of
          CreateDstEscrow imm t v g \<Rightarrow> Inr [Parsed ''DstEscrowCreated'' (Some 0xD57) None]
        | GetTransactionReceipt ch \<Rightarrow>
            (case ch of
               Dst \<Rightarrow> Inr [Parsed ''DstEscrowCreated'' (Some 0xD57) None]
             | Src \<Rightarrow> Inr [Unparsable, Parsed ''SrcEscrowCreatedDirect'' (Some 0x5C0) None])
        | CreateSrcEscrow imm v g \<Rightarrow> Inr [Unparsable, Parsed ''SrcEscrowCreatedDirect'' (Some 0x5C0) None]
        | _ \<Rightarrow> Inl ''no receipt''),
       address_reply = (\<lambda>n c. Inl ''call reverted''),
       clock = (\<lambda>n. 1700000000),
       isoNow = (\<lambda>n. ''2023-11-14T22:15:00.000Z''),
       formatUnits6 = (\<lambda>x. ''0.0''),
       relayerAddress = 0xE1A7 \<rparr>"


text \<open>The same world, but the user never approves: the allowance reads 0.\<close>

definition unapproved_world :: world where
  "unapproved_world = unfunded_world
     \<lparr> uint_reply := (\<lambda>n c. case c of
          Allowance ch owner spender \<Rightarrow> Inr 0
        | BalanceOf ch a \<Rightarrow> Inr 5000000
        | _ \<Rightarrow> Inr 200000) \<rparr>"

text \<open>A world in which both escrows hold the amount: every balance reads 5 USDC.\<close>

definition funded_world :: world where
  "funded_world = unfunded_world
     \<lparr> uint_reply := (\<lambda>n c. case c of
          Allowance ch owner spender \<Rightarrow> Inr 100000
        | BalanceOf ch a \<Rightarrow> Inr 5000000
        | _ \<Rightarrow> Inr 200000) \<rparr>"


text \<open>The two Immutables of the sample swap.\<close>

definition sample_srcImmutables :: immutables where
  "sample_srcImmutables = \<lparr> orderHash = ''0xaa'', hashlock = ''0xbb'', maker = 0xABCD, taker = 0xABCD,
     token = 0x1111, amount = 100000, safetyDeposit = 10 ^ 15, timelocks = 1700000000 \<rparr>"

definition sample_dstImmutables :: immutables where
  "sample_dstImmutables = \<lparr> orderHash = ''0xaa'', hashlock = ''0xbb'', maker = 0xABCD, taker = 0xABCD,
     token = 0x2222, amount = 100000, safetyDeposit = 10 ^ 15, timelocks = 1700000000 \<rparr>"


text \<open>A run of the script in the world where every balance reads 5 USDC.\<close>

definition sample_fill_env :: fill_env where
  "sample_fill_env =
     \<lparr> srcUser = 0xABCD, dstUser = 0xABCD, srcEscrowFactory = 0x5001, dstEscrowFactory = 0x5002,
       randomSecret = (\<lambda>i. if i = 10 then ''0x5ec2e70a'' else ''0x5ec2e700''),
       hashSecret = (\<lambda>s. ''0xbb'' @ drop 8 s),
       getMerkleLeaves = (\<lambda>ss. map (\<lambda>s. ''0x1eaf'' @ drop 8 s) ss),
       getProof = (\<lambda>ls i. [''0x9100f1'', ''0x9100f2'', ''0x9100f3'', ''0x9100f4'']),
       toSrcImmutables = (\<lambda>tk amt hl. \<lparr> orderHash = ''0xaa'', hashlock = hl, maker = 0xABCD, taker = tk,
          token = 0x2222, amount = amt, safetyDeposit = 0, timelocks = script_timelocks \<rparr>) \<rparr>"


text \<open>
  The Immutables of the sample fill, the script's clock reading 1700000000; the
  destination ones re-stamped with the block time 200000 that the world reports.
\<close>

definition sample_fill_src :: immutables where
  "sample_fill_src = fill_srcImmutables sample_fill_env 1700000000"

definition sample_fill_dst :: immutables where
  "sample_fill_dst = (fill_dstImmutables sample_config sample_fill_env 1700000000)
      \<lparr> timelocks := timelocksWithDeployedAt (timelocks (fill_dstImmutables sample_config sample_fill_env 1700000000)) 200000 \<rparr>"


section \<open>Properties: timelocks\<close>

lemma mask_as_push_bit: "DEPLOYED_AT_CLEAR_MASK = push_bit 32 (mask 216)"
  by (simp add: DEPLOYED_AT_CLEAR_MASK_def mask_eq_exp_minus_1 push_bit_eq_mult)

text \<open>The stamp bit by bit: bits 32 to 247 come from the packed value, and the timestamp is laid over.\<close>

lemma bit_timelocksWithDeployedAt:
  "bit (timelocksWithDeployedAt t d) n \<longleftrightarrow> (32 \<le> n \<and> n < 248 \<and> bit t n) \<or> bit d n"
  by (auto simp add: timelocksWithDeployedAt_def mask_as_push_bit bit_simps)

lemma small_int_bits:
  assumes "0 \<le> (x::int)" "x < 2 ^ m" "m \<le> n" shows "\<not> bit x n"
proof -
  have "take_bit m x = x" using assms by (simp add: take_bit_int_eq_self)
  then show ?thesis using assms(3) by (metis bit_take_bit_iff not_le)
qed

text \<open>
  What the stamp does with a timestamp that fits the field: the low 32 bits become the
  timestamp, every sub-field within bits 32 to 247 is kept, and bits 248 and above are
  cleared.
\<close>

lemma timelocksWithDeployedAt_fields:
  assumes "0 \<le> d" "d < 2 ^ 32"
  shows "deployedAt (timelocksWithDeployedAt t d) = d"
    and "32 \<le> pos \<Longrightarrow> pos + w \<le> 248 \<Longrightarrow>
           subfield pos w (timelocksWithDeployedAt t d) = subfield pos w t"
    and "drop_bit 248 (timelocksWithDeployedAt t d) = 0"
proof -
  have "take_bit 32 (timelocksWithDeployedAt t d) = take_bit 32 d"
    by (rule bit_eqI) (auto simp add: bit_simps bit_timelocksWithDeployedAt)
  then show "deployedAt (timelocksWithDeployedAt t d) = d"
    using assms by (simp add: deployedAt_def subfield_def take_bit_int_eq_self)
next
  assume p: "32 \<le> pos" "pos + w \<le> 248"
  show "subfield pos w (timelocksWithDeployedAt t d) = subfield pos w t"
    unfolding subfield_def
  proof (rule bit_eqI)
    fix n
    have "\<not> bit d (pos + n)" using small_int_bits [OF assms, of "pos + n"] p by simp
    then show "bit (take_bit w (drop_bit pos (timelocksWithDeployedAt t d))) n
                 = bit (take_bit w (drop_bit pos t)) n"
      using p by (auto simp add: bit_simps bit_timelocksWithDeployedAt)
  qed
next
  show "drop_bit 248 (timelocksWithDeployedAt t d) = 0"
  proof (rule bit_eqI)
    fix n
    have "\<not> bit d (248 + n)" using small_int_bits [OF assms, of "248 + n"] by simp
    then show "bit (drop_bit 248 (timelocksWithDeployedAt t d)) n = bit (0::int) n"
      by (simp add: bit_simps bit_timelocksWithDeployedAt)
  qed
qed



section \<open>Properties: the two Immutables of an order\<close>

text \<open>
  C9, as the code has it. The destination Immutables copy orderHash, hashlock and maker
  from the source Immutables, and both carry the same safety deposit and the same
  deployedAt-stamped timelocks; the destination taker, token and amount are the user's
  address, the destination USDC and the swap amount, while the source ones are whatever
  \<open>toSrcImmutables\<close> returned.
\<close>

theorem create_order_immutables_shared_fields:
  "orderHash (create_order_dstImmutables cfg req e) = orderHash (create_order_srcImmutables e)
   \<and> hashlock (create_order_dstImmutables cfg req e) = hashlock (create_order_srcImmutables e)
   \<and> maker (create_order_dstImmutables cfg req e) = maker (create_order_srcImmutables e)
   \<and> safetyDeposit (create_order_dstImmutables cfg req e) = safetyDeposit (create_order_srcImmutables e)
   \<and> timelocks (create_order_dstImmutables cfg req e) = timelocks (create_order_srcImmutables e)
   \<and> taker (create_order_dstImmutables cfg req e) = req_userAddress req
   \<and> token (create_order_dstImmutables cfg req e) = dstUSDC cfg
   \<and> amount (create_order_dstImmutables cfg req e) = env_swapAmount e
   \<and> taker (create_order_srcImmutables e) = taker (env_srcImmutablesRaw e)
   \<and> token (create_order_srcImmutables e) = token (env_srcImmutablesRaw e)
   \<and> amount (create_order_srcImmutables e) = amount (env_srcImmutablesRaw e)"
  by (simp add: create_order_dstImmutables_def create_order_srcImmutables_def
      srcImmutablesOf_def dstImmutablesOf_def)


text \<open>
  C9 as stated fails: the two records never differ in their timelocks, and when the SDK
  returns the taker and the amount it was called with, they do not differ in taker or
  amount either.
\<close>

theorem create_order_immutables_counterexample:
  "\<not> (taker (create_order_srcImmutables sample_order_env)
        \<noteq> taker (create_order_dstImmutables sample_config sample_request sample_order_env)
      \<and> token (create_order_srcImmutables sample_order_env)
        \<noteq> token (create_order_dstImmutables sample_config sample_request sample_order_env)
      \<and> amount (create_order_srcImmutables sample_order_env)
        \<noteq> amount (create_order_dstImmutables sample_config sample_request sample_order_env)
      \<and> timelocks (create_order_srcImmutables sample_order_env)
        \<noteq> timelocks (create_order_dstImmutables sample_config sample_request sample_order_env))
   \<and> timelocks (create_order_srcImmutables sample_order_env)
       = timelocks (create_order_dstImmutables sample_config sample_request sample_order_env)
   \<and> taker (create_order_srcImmutables sample_order_env)
       = taker (create_order_dstImmutables sample_config sample_request sample_order_env)
   \<and> amount (create_order_srcImmutables sample_order_env)
       = amount (create_order_dstImmutables sample_config sample_request sample_order_env)"
  by (simp add: create_order_dstImmutables_def create_order_srcImmutables_def
      srcImmutablesOf_def dstImmutablesOf_def sample_order_env_def sample_raw_def sample_request_def)


section \<open>Properties: status queries\<close>

text \<open>
  C7, as the code has it. For a stored swap the reply carries the current status, the
  amount, the user address, the creation time and each escrow address once it is set and
  non-empty (\<open>null\<close> before); it does not depend on the \<open>error\<close> field of the entry.
\<close>

theorem swap_status_reply:
  assumes "reg swapId = Some entry"
  shows "swap_status reg swapId =
           SwapStatus (status entry) swapId
             \<lparr> det_amount = sd_amount entry, det_userAddress = userAddress entry,
               det_createdAt = createdAt entry,
               det_srcEscrowAddress = or_null (srcEscrowAddress entry),
               det_dstEscrowAddress = or_null (dstEscrowAddress entry) \<rparr>
       \<and> (\<forall>a. srcEscrowAddress entry = Some a \<longrightarrow> or_null (srcEscrowAddress entry) = Some a)
       \<and> (\<forall>a. dstEscrowAddress entry = Some a \<longrightarrow> or_null (dstEscrowAddress entry) = Some a)
       \<and> swap_status (reg(swapId \<mapsto> entry\<lparr>error := e\<rparr>)) swapId = swap_status reg swapId"
  using assms by (simp add: swap_status_def or_null_def)

text \<open>The theorem on a failed swap whose destination escrow is known.\<close>

theorem swap_status_reply_witness:
  "swap_status [''0xaa'' \<mapsto> failed_entry ''User approval timeout''] ''0xaa'' =
     SwapStatus ''failed'' ''0xaa''
       \<lparr> det_amount = 100000, det_userAddress = 0xABCD, det_createdAt = ''2023-11-14T22:13:20.000Z'',
         det_srcEscrowAddress = None, det_dstEscrowAddress = Some 0xD57E5C \<rparr>"
  using swap_status_reply [of "[''0xaa'' \<mapsto> failed_entry ''User approval timeout'']" "''0xaa''"
      "failed_entry ''User approval timeout''" "Some ''User approval timeout''"]
  by (simp add: failed_entry_def create_order_entry_def sample_order_env_def sample_request_def or_null_def)

text \<open>
  C7 as stated fails: the reply has no field for the error. Two failed swaps that differ
  only in the stored error message get the same reply, which says \<open>failed\<close> and nothing
  about why.
\<close>

theorem swap_status_counterexample:
  "error (failed_entry ''User approval timeout - user must approve USDC spending'')
     \<noteq> error (failed_entry ''Funds not properly locked in escrow contracts'')
   \<and> swap_status [''0xaa'' \<mapsto> failed_entry ''User approval timeout - user must approve USDC spending''] ''0xaa''
     = swap_status [''0xaa'' \<mapsto> failed_entry ''Funds not properly locked in escrow contracts''] ''0xaa''
   \<and> swap_status [''0xaa'' \<mapsto> failed_entry ''Funds not properly locked in escrow contracts''] ''0xaa''
     = SwapStatus ''failed'' ''0xaa''
       \<lparr> det_amount = 100000, det_userAddress = 0xABCD, det_createdAt = ''2023-11-14T22:13:20.000Z'',
         det_srcEscrowAddress = None, det_dstEscrowAddress = Some 0xD57E5C \<rparr>"
  by (simp add: swap_status_def failed_entry_def create_order_entry_def sample_order_env_def
      sample_request_def or_null_def)

section \<open>Properties: the escrow address of \<open>scripts/cross-chain-swap.js\<close>\<close>

text \<open>
  C5, as the code has it. The address is a function of the orderHash and the user address
  alone: two Immutables with the same orderHash get the same address for the same user,
  whatever their other fields, and the destination address is computed from the source
  orderHash.
\<close>

theorem escrow_address_from_orderHash_only:
  assumes "orderHash imm = orderHash imm'"
  shows "srcEscrowAddressOf keccak256 solidityPacked imm user = srcEscrowAddressOf keccak256 solidityPacked imm' user
       \<and> dstEscrowAddressOf keccak256 solidityPacked imm user = dstEscrowAddressOf keccak256 solidityPacked imm' user
       \<and> dstEscrowAddressOf keccak256 solidityPacked (swap_script_dstImmutables imm user swapAmount dstToken safetyDep) user
           = simple_escrow_address keccak256 solidityPacked (orderHash imm') user"
  using assms by (simp add: srcEscrowAddressOf_def dstEscrowAddressOf_def swap_script_dstImmutables_def)

text \<open>The theorem on two Immutables that differ in the hashlock, for any hash and packing function.\<close>

theorem escrow_address_from_orderHash_only_witness:
  "\<forall>keccak256 solidityPacked.
     srcEscrowAddressOf keccak256 solidityPacked sample_raw 0xABCD
       = srcEscrowAddressOf keccak256 solidityPacked (sample_raw \<lparr> hashlock := ''0xcc'' \<rparr>) 0xABCD"
  using escrow_address_from_orderHash_only [of sample_raw "sample_raw \<lparr> hashlock := ''0xcc'' \<rparr>"]
  by simp

text \<open>
  No field of the Immutables other than the orderHash reaches the calculation, for any
  hash and packing function.
\<close>

lemma escrow_address_ignores_other_fields:
  "srcEscrowAddressOf keccak256 solidityPacked
       (imm \<lparr> hashlock := h, maker := m, taker := t, token := tok, amount := a,
             safetyDeposit := dep, timelocks := packed \<rparr>) user
     = srcEscrowAddressOf keccak256 solidityPacked imm user
   \<and> dstEscrowAddressOf keccak256 solidityPacked
       (imm \<lparr> hashlock := h, maker := m, taker := t, token := tok, amount := a,
             safetyDeposit := dep, timelocks := packed \<rparr>) user
     = dstEscrowAddressOf keccak256 solidityPacked imm user"
  by (simp add: srcEscrowAddressOf_def dstEscrowAddressOf_def)

text \<open>
  C5 as stated fails: stamping another deployedAt into the timelocks, or changing the
  amount, leaves the address as it was.
\<close>

theorem escrow_address_counterexample:
  "deployedAt (timelocks (sample_raw \<lparr> timelocks := timelocksWithDeployedAt (timelocks sample_raw) 1700000000 \<rparr>))
     \<noteq> deployedAt (timelocks sample_raw)
   \<and> srcEscrowAddressOf sample_keccak256 sample_solidityPacked
         (sample_raw \<lparr> timelocks := timelocksWithDeployedAt (timelocks sample_raw) 1700000000 \<rparr>) 0xABCD
       = srcEscrowAddressOf sample_keccak256 sample_solidityPacked sample_raw 0xABCD
   \<and> srcEscrowAddressOf sample_keccak256 sample_solidityPacked sample_raw 0xABCD = ''0xdcbaaax0''
   \<and> amount (sample_raw \<lparr> amount := 1 \<rparr>) \<noteq> amount sample_raw
   \<and> dstEscrowAddressOf sample_keccak256 sample_solidityPacked (sample_raw \<lparr> amount := 1 \<rparr>) 0xABCD
       = dstEscrowAddressOf sample_keccak256 sample_solidityPacked sample_raw 0xABCD"
  by (simp add: srcEscrowAddressOf_def dstEscrowAddressOf_def simple_escrow_address_def sample_raw_def
      sample_keccak256_def sample_solidityPacked_def deployedAt_def subfield_def
      timelocksWithDeployedAt_def DEPLOYED_AT_CLEAR_MASK_def take_bit_eq_mod)

section \<open>Properties: reasoning about traces\<close>

lemma swapData_update [simp]:
  "swapData (st \<lparr> objects := h \<rparr>) = h (swapData_ref st)"
  "swapData (st \<lparr> activeSwaps := m \<rparr>) = swapData st"
  by (simp_all add: swapData_def)

lemma registry_of_set [simp]:
  "registry_of (st \<lparr> activeSwaps := (activeSwaps st) (k \<mapsto> swapData_ref st) \<rparr>) k = Some (swapData st)"
  by (simp add: registry_of_def swapData_def)

named_theorems ok_intros

lemma ok_ret [ok_intros]: "server_ok P (ret x)"
  by (simp add: server_ok_def ret_def end_state_def)

lemma ok_throw [ok_intros]: "server_ok P (throw msg)"
  by (simp add: server_ok_def throw_def end_state_def)

lemma ok_andThen [ok_intros]:
  assumes "server_ok P m" and "\<And>x. server_ok P (f x)"
  shows "server_ok P (andThen m f)"
  unfolding server_ok_def
proof (intro allI)
  fix s
  from assms(1) obtain new where m: "trace (end_state (m s)) = trace s @ new" "list_all (\<lambda>e. P (fst e)) new"
    "core (swapData (store (end_state (m s)))) = core (swapData (store s))" "\<forall>s'. m s \<noteq> Inl (Returned, s')"
    unfolding server_ok_def by blast
  show "(\<exists>new. trace (end_state (andThen m f s)) = trace s @ new \<and> list_all (\<lambda>e. P (fst e)) new)
        \<and> core (swapData (store (end_state (andThen m f s)))) = core (swapData (store s))
        \<and> (\<forall>s'. andThen m f s \<noteq> Inl (Returned, s'))"
  proof (cases "m s")
    case (Inl e)
    then show ?thesis using m by (cases e) (auto simp add: andThen_def end_state_def)
  next
    case (Inr r)
    obtain x s1 where r: "r = (x, s1)" by (cases r)
    from assms(2) [of x] obtain new' where f: "trace (end_state (f x s1)) = trace s1 @ new'"
      "list_all (\<lambda>e. P (fst e)) new'"
      "core (swapData (store (end_state (f x s1)))) = core (swapData (store s1))"
      "\<forall>s'. f x s1 \<noteq> Inl (Returned, s')"
      unfolding server_ok_def by blast
    have s1: "end_state (m s) = s1" using Inr r by (simp add: end_state_def)
    have e: "andThen m f s = f x s1" using Inr r by (simp add: andThen_def)
    show ?thesis using m f s1 unfolding e by auto
  qed
qed

lemma ok_try_catch [ok_intros]:
  assumes "server_ok P m" and "\<And>msg. server_ok P (h msg)"
  shows "server_ok P (try_catch m h)"
  unfolding server_ok_def
proof (intro allI)
  fix s
  from assms(1) obtain new where m: "trace (end_state (m s)) = trace s @ new" "list_all (\<lambda>e. P (fst e)) new"
    "core (swapData (store (end_state (m s)))) = core (swapData (store s))" "\<forall>s'. m s \<noteq> Inl (Returned, s')"
    unfolding server_ok_def by blast
  show "(\<exists>new. trace (end_state (try_catch m h s)) = trace s @ new \<and> list_all (\<lambda>e. P (fst e)) new)
        \<and> core (swapData (store (end_state (try_catch m h s)))) = core (swapData (store s))
        \<and> (\<forall>s'. try_catch m h s \<noteq> Inl (Returned, s'))"
  proof (cases "m s")
    case (Inr r)
    then show ?thesis using m by (auto simp add: try_catch_def end_state_def)
  next
    case (Inl r)
    obtain e s1 where r: "r = (e, s1)" by (cases r)
    show ?thesis
    proof (cases e)
      case Returned
      then show ?thesis using m Inl r by simp
    next
      case (Thrown msg)
      from assms(2) [of msg] obtain new' where f: "trace (end_state (h msg s1)) = trace s1 @ new'"
        "list_all (\<lambda>e. P (fst e)) new'"
        "core (swapData (store (end_state (h msg s1)))) = core (swapData (store s1))"
        "\<forall>s'. h msg s1 \<noteq> Inl (Returned, s')"
        unfolding server_ok_def by blast
      have s1: "end_state (m s) = s1" using Inl r by (simp add: end_state_def)
      have e: "try_catch m h s = h msg s1" using Inl r Thrown by (simp add: try_catch_def)
      show ?thesis using m f s1 unfolding e by auto
    qed
  qed
qed

lemma ok_if [ok_intros]:
  "(b \<Longrightarrow> server_ok P m) \<Longrightarrow> (\<not> b \<Longrightarrow> server_ok P n) \<Longrightarrow> server_ok P (if b then m else n)"
  by simp

lemma ok_case_option [ok_intros]:
  "server_ok P m \<Longrightarrow> (\<And>a. server_ok P (f a)) \<Longrightarrow> server_ok P (case x of None \<Rightarrow> m | Some a \<Rightarrow> f a)"
  by (cases x) simp_all

lemma ok_case_prod [ok_intros]:
  "(\<And>a b. server_ok P (f a b)) \<Longrightarrow> server_ok P (case x of (a, b) \<Rightarrow> f a b)"
  by (cases x) simp

lemma ok_call_uint [ok_intros]: "P c \<Longrightarrow> server_ok P (call_uint W c)"
  by (auto simp add: server_ok_def call_uint_def end_state_def record_call_def split: sum.splits)

lemma ok_call_tx [ok_intros]: "P c \<Longrightarrow> server_ok P (call_tx W c)"
  by (auto simp add: server_ok_def call_tx_def end_state_def record_call_def split: sum.splits)

lemma ok_call_logs [ok_intros]: "P c \<Longrightarrow> server_ok P (call_logs W c)"
  by (auto simp add: server_ok_def call_logs_def end_state_def record_call_def split: sum.splits)

lemma ok_call_address [ok_intros]: "P c \<Longrightarrow> server_ok P (call_address W c)"
  by (auto simp add: server_ok_def call_address_def end_state_def record_call_def split: sum.splits)

lemma ok_sleep [ok_intros]: "P (Sleep ms) \<Longrightarrow> server_ok P (sleep ms)"
  by (auto simp add: server_ok_def sleep_def end_state_def record_call_def)

lemma ok_now_seconds [ok_intros]: "server_ok P (now_seconds W)"
  by (simp add: server_ok_def now_seconds_def end_state_def)

lemma ok_iso_now [ok_intros]: "server_ok P (iso_now W)"
  by (simp add: server_ok_def iso_now_def end_state_def)

lemma ok_get_swapData [ok_intros]: "server_ok P get_swapData"
  by (simp add: server_ok_def get_swapData_def end_state_def)

lemma ok_activeSwaps_set [ok_intros]: "server_ok P activeSwaps_set"
  by (simp add: server_ok_def activeSwaps_set_def end_state_def)

lemma ok_update_swapData [ok_intros]:
  "(\<And>d. core (f d) = core d) \<Longrightarrow> server_ok P (update_swapData f)"
  by (simp add: server_ok_def update_swapData_def end_state_def)

lemma ok_enter_status [ok_intros]: "server_ok P (enter_status st)"
  unfolding enter_status_def by (intro ok_intros) (simp add: core_def)

lemma ok_find_src_escrow [ok_intros]:
  "(\<And>i. P (AddressOfEscrowSrc i)) \<Longrightarrow> server_ok P (find_src_escrow W logs)"
  by (induction W logs rule: find_src_escrow.induct) (auto intro!: ok_intros)

lemma ok_find_src_escrow_v1 [ok_intros]:
  "P (AddressOfEscrowSrc srcImm) \<Longrightarrow> server_ok P (find_src_escrow_v1 W srcImm logs)"
  by (induction W srcImm logs rule: find_src_escrow_v1.induct) (auto intro!: ok_intros)

lemma ok_poll_once [ok_intros]:
  "P (Allowance Src owner spender) \<Longrightarrow> P (Sleep 5000) \<Longrightarrow> server_ok P (poll_once W owner spender amt)"
  unfolding poll_once_def by (intro ok_intros) simp_all

lemma ok_wait_for_approval [ok_intros]:
  "P (Allowance Src owner spender) \<Longrightarrow> P (Sleep 5000) \<Longrightarrow>
   server_ok P (wait_for_approval W owner spender amt attempts)"
proof (induction W owner spender amt attempts rule: wait_for_approval.induct)
  case (1 W owner spender amt attempts)
  show ?case
    by (subst wait_for_approval.simps) (auto intro!: ok_intros 1 simp del: wait_for_approval.simps)
qed

lemma ok_approve_dst: "\<forall>c. \<not> is_withdraw c \<and> \<not> is_create_src c \<longrightarrow> P c \<Longrightarrow> server_ok P (approve_dst W)"
  unfolding approve_dst_def by (intro ok_intros) simp_all

lemma ok_create_dst_escrow: "\<forall>c. \<not> is_withdraw c \<and> \<not> is_create_src c \<longrightarrow> P c \<Longrightarrow> server_ok P (create_dst_escrow W)"
  unfolding create_dst_escrow_def dst_escrow_from_receipt_def by (intro ok_intros) (simp_all add: core_def)

lemma ok_wait_src_approval: "\<forall>c. \<not> is_withdraw c \<and> \<not> is_create_src c \<longrightarrow> P c \<Longrightarrow> server_ok P (wait_src_approval W)"
  unfolding wait_src_approval_def by (intro ok_intros) simp_all

lemma ok_transfer_and_approve_src: "\<forall>c. \<not> is_withdraw c \<longrightarrow> P c \<Longrightarrow> server_ok P (transfer_and_approve_src W)"
  unfolding transfer_and_approve_src_def by (intro ok_intros) simp_all

lemma ok_create_src_escrow: "\<forall>c. \<not> is_withdraw c \<longrightarrow> P c \<Longrightarrow> server_ok P (create_src_escrow W)"
  unfolding create_src_escrow_def src_escrow_from_receipt_def by (intro ok_intros) (simp_all add: core_def)

lemma ok_lock_funds: "server_ok (\<lambda>c. \<not> is_withdraw c) (lock_funds W)"
  unfolding lock_funds_def
  by (intro ok_intros ok_approve_dst ok_create_dst_escrow ok_wait_src_approval
      ok_transfer_and_approve_src ok_create_src_escrow) simp_all


lemma split_after_prefix:
  assumes "xs @ ys = pre @ x # post" "\<forall>e\<in>set xs. \<not> Q e" "Q x"
  shows "\<exists>pre'. pre = xs @ pre'"
  using assms by (auto simp add: append_eq_append_conv2 append_eq_Cons_conv)

lemma server_okD:
  assumes "server_ok P m"
  shows "\<exists>new. trace (end_state (m s)) = trace s @ new \<and> list_all (\<lambda>e. P (fst e)) new"
    and "core (swapData (store (end_state (m s)))) = core (swapData (store s))"
    and "m s \<noteq> Inl (Returned, s')"
  using assms unfolding server_ok_def by blast+

lemma verify_funds_locked_Inr:
  assumes "verify_funds_locked W srcEscrow dstEscrow s = Inr (u, s')"
  shows "\<exists>v1 v2 v3 v4. trace s' = trace s @ [(BalanceOf Src srcEscrow, Uint v1), (BalanceOf Dst dstEscrow, Uint v2),
               (GetBalance Src srcEscrow, Uint v3), (GetBalance Dst dstEscrow, Uint v4)]
           \<and> sd_amount (swapData (store s)) \<le> v1 \<and> sd_amount (swapData (store s)) \<le> v2"
  using assms
  by (auto simp add: verify_funds_locked_def andThen_def get_swapData_def call_uint_def record_call_def
      ret_def throw_def split: sum.splits if_splits)

lemma ok_verify_funds_locked: "server_ok (\<lambda>c. \<not> is_withdraw c) (verify_funds_locked W a b)"
  unfolding verify_funds_locked_def by (intro ok_intros) simp_all


lemma ok_withdraw_with_retry:
  "P (BalanceOf ch escrow) \<Longrightarrow> P (EstimateWithdraw ch escrow [Bytes32 sec, Tuple imm]) \<Longrightarrow>
   (\<And>g. P (Withdraw ch escrow [Bytes32 sec, Tuple imm] g)) \<Longrightarrow>
   server_ok P (withdraw_with_retry W ch escrow sec imm failure)"
  unfolding withdraw_with_retry_def by (intro ok_intros) simp_all

lemma ok_release_funds: "server_ok (withdraws_from src dst) (release_funds W src dst)"
  unfolding release_funds_def withdraw_src_def withdraw_dst_def transfer_to_user_def mark_completed_def
  by (intro ok_intros ok_withdraw_with_retry) (simp_all add: core_def)

lemma trace_on_failure: "trace (end_state (try_catch m on_failure s)) = trace (end_state (m s))"
  by (auto simp add: try_catch_def end_state_def on_failure_def andThen_def update_swapData_def
      activeSwaps_set_def split: sum.splits abrupt.splits prod.splits)

lemma list_all_fstD: "list_all (\<lambda>e. Q (fst e)) xs \<Longrightarrow> (c, r) \<in> set xs \<Longrightarrow> Q c"
  by (induction xs) auto


lemmas server_defs =
  executeSwapAsync_def swap_steps_def lock_funds_def approve_dst_def create_dst_escrow_def
  dst_escrow_from_receipt_def wait_src_approval_def transfer_and_approve_src_def create_src_escrow_def
  src_escrow_from_receipt_def verify_funds_locked_def release_funds_def withdraw_src_def withdraw_dst_def
  withdraw_with_retry_def transfer_to_user_def mark_completed_def on_failure_def enter_status_def
  executeSwapAsync_v1_def swap_steps_v1_def lock_funds_v1_def approve_dst_v1_def create_dst_escrow_v1_def
  wait_src_approval_v1_def create_src_escrow_v1_def release_funds_v1_def withdraw_src_v1_def
  withdraw_dst_v1_def transfer_to_user_v1_def

lemmas prog_defs =
  andThen_def try_catch_def ret_def throw_def call_uint_def call_tx_def call_logs_def call_address_def
  sleep_def now_seconds_def iso_now_def record_call_def get_swapData_def update_swapData_def
  activeSwaps_set_def end_state_def start_def poll_once_def gas_with_buffer_def bigint_div_def

lemmas sample_defs =
  swapData_def sample_server_def sample_swap_def create_order_entry_def create_order_srcImmutables_def create_order_dstImmutables_def
  create_order_typedData_def srcImmutablesOf_def dstImmutablesOf_def sample_order_env_def sample_raw_def
  sample_request_def sample_config_def parseEther_0_001_def timelocksWithDeployedAt_def
  DEPLOYED_AT_CLEAR_MASK_def


lemma swapData_sample_server: "swapData sample_server = sample_swap"
  by (simp add: swapData_def sample_server_def)

lemma sample_immutables:
  "srcImmutables sample_swap = sample_srcImmutables" "dstImmutables sample_swap = sample_dstImmutables"
  by (simp_all add: sample_defs sample_srcImmutables_def sample_dstImmutables_def)


section \<open>Properties: the funds check before the secret is revealed\<close>

text \<open>
  The second server reveals only after the check: whenever its trace holds a withdrawal
  call (or the gas estimate of one), both escrows' token balances were read before it,
  both reads were at least the swap amount, and the call goes to one of those escrows.
\<close>

lemma executeSwapAsync_reveals_only_after_check:
  assumes tr: "trace (executeSwapAsync W st) = pre @ (c, r) # post" and w: "is_withdraw c"
  shows "\<exists>src dst v1 v2. (BalanceOf Src src, Uint v1) \<in> set pre \<and> (BalanceOf Dst dst, Uint v2) \<in> set pre
           \<and> sd_amount (swapData st) \<le> v1 \<and> sd_amount (swapData st) \<le> v2 \<and> withdraws_from src dst c"
proof -
  let ?s0 = "start st"
  have t0: "trace ?s0 = []" by (simp add: start_def)
  have tr': "trace (end_state (swap_steps W ?s0)) = pre @ (c, r) # post"
    using tr by (simp add: executeSwapAsync_def trace_on_failure)
  obtain new1 where n1: "trace (end_state (lock_funds W ?s0)) = new1" "list_all (\<lambda>e. \<not> is_withdraw (fst e)) new1"
    using server_okD(1) [OF ok_lock_funds, of W ?s0] t0 by auto
  have c1: "core (swapData (store (end_state (lock_funds W ?s0)))) = core (swapData st)"
    using server_okD(2) [OF ok_lock_funds, of W ?s0] by (simp add: start_def)
  show ?thesis
  proof (cases "lock_funds W ?s0")
    case (Inl e)
    then have "end_state (swap_steps W ?s0) = end_state (lock_funds W ?s0)"
      by (simp add: swap_steps_def andThen_def end_state_def)
    then have "(c, r) \<in> set new1" using tr' n1 by simp
    then have "\<not> is_withdraw c" using list_all_fstD [OF n1(2)] by blast
    then show ?thesis using w by simp
  next
    case (Inr x)
    obtain src dst s1 where x: "x = ((src, dst), s1)" by (cases x) auto
    have s1: "trace s1 = new1" "sd_amount (swapData (store s1)) = sd_amount (swapData st)"
      using n1 c1 Inr x by (simp_all add: end_state_def core_def)
    show ?thesis
    proof (cases "verify_funds_locked W src dst s1")
      case (Inl e)
      then have E: "end_state (swap_steps W ?s0) = end_state (verify_funds_locked W src dst s1)"
        using Inr x by (simp add: swap_steps_def andThen_def end_state_def)
      obtain new2 where n2: "trace (end_state (verify_funds_locked W src dst s1)) = trace s1 @ new2"
        "list_all (\<lambda>e. \<not> is_withdraw (fst e)) new2"
        using server_okD(1) [OF ok_verify_funds_locked, of W src dst s1] by auto
      have eq: "new1 @ new2 = pre @ (c, r) # post"
        using tr' s1(1) n2(1) E by simp
      have na: "list_all (\<lambda>e. \<not> is_withdraw (fst e)) (new1 @ new2)"
        using n1(2) n2(2) by simp
      have "(c, r) \<in> set (new1 @ new2)" unfolding eq by simp
      then have "\<not> is_withdraw c" using list_all_fstD [OF na] by blast
      then show ?thesis using w by simp
    next
      case (Inr y)
      obtain u s2 where y: "y = (u, s2)" by (cases y)
      from verify_funds_locked_Inr [OF Inr [unfolded y]]
      obtain v1 v2 v3 v4 where g: "trace s2 = new1 @ [(BalanceOf Src src, Uint v1), (BalanceOf Dst dst, Uint v2),
          (GetBalance Src src, Uint v3), (GetBalance Dst dst, Uint v4)]"
        "sd_amount (swapData st) \<le> v1" "sd_amount (swapData st) \<le> v2"
        using s1 by auto
      have "list_all (\<lambda>e. \<not> is_withdraw (fst e)) (trace s2)"
        using g(1) n1(2) by simp
      then have nw2: "\<forall>e\<in>set (trace s2). \<not> is_withdraw (fst e)"
        by (simp add: list_all_iff)
      have "end_state (swap_steps W ?s0) = end_state (release_funds W src dst s2)"
        using \<open>lock_funds W ?s0 = Inr x\<close> x Inr y by (simp add: swap_steps_def andThen_def end_state_def)
      moreover obtain new3 where n3: "trace (end_state (release_funds W src dst s2)) = trace s2 @ new3"
        "list_all (\<lambda>e. withdraws_from src dst (fst e)) new3"
        using server_okD(1) [OF ok_release_funds, of W src dst s2] by auto
      ultimately have eq: "trace s2 @ new3 = pre @ (c, r) # post" using tr' by simp
      from split_after_prefix [OF eq, of "\<lambda>e. is_withdraw (fst e)"] nw2 w
      obtain pre' where pre: "pre = trace s2 @ pre'" by auto
      then have "(c, r) \<in> set new3" using eq by auto
      then have "withdraws_from src dst c" using list_all_fstD [OF n3(2)] by blast
      then show ?thesis using pre g by auto
    qed
  qed
qed


text \<open>
  Where no token has reached the escrows, the second server stops with the
  funds-not-locked failure and submits no withdrawal.
\<close>

lemma executeSwapAsync_halts_when_unfunded:
  "status (swapData (store (executeSwapAsync unfunded_world sample_server))) = ''failed''
   \<and> error (swapData (store (executeSwapAsync unfunded_world sample_server)))
       = Some ''Funds not properly locked in escrow contracts''
   \<and> list_all (\<lambda>e. \<not> is_withdraw (fst e)) (trace (executeSwapAsync unfunded_world sample_server))"
  by (simp add: server_defs prog_defs sample_defs unfunded_world_def wait_for_approval.simps maxAttempts_def)


text \<open>
  C1 on the first server. In the same world, where both escrows hold nothing, the first
  server's \<open>executeSwapAsync\<close> reads no escrow balance at all: ten seconds after the
  source escrow is created it submits the secret to the source escrow's \<open>withdraw\<close>,
  then to the destination escrow's, and ends in the status \<open>completed\<close>.
\<close>

theorem executeSwapAsync_v1_reveals_without_check:
  "trace (executeSwapAsync_v1 unfunded_world sample_server) =
     [(BalanceOf Dst 0xE1A7, Uint 5000000),
      (Approve Dst 0x5002 100000 None, Done),
      (CreateDstEscrow sample_dstImmutables 1700003600 (10 ^ 15) None,
         Logs [Parsed ''DstEscrowCreated'' (Some 0xD57) None]),
      (Allowance Src 0xABCD 0x5001, Uint 100000),
      (CreateSrcEscrow sample_srcImmutables (10 ^ 15) None,
         Logs [Unparsable, Parsed ''SrcEscrowCreatedDirect'' (Some 0x5C0) None]),
      (Sleep 10000, Done),
      (Withdraw Src 0x5C0 [Bytes32 ''0x5ec2e7'', Tuple sample_srcImmutables] None, Done),
      (Withdraw Dst 0xD57 [Bytes32 ''0x5ec2e7'', Tuple sample_dstImmutables] None, Done),
      (Transfer Dst 0xABCD 100000, Done)]
   \<and> status (swapData (store (executeSwapAsync_v1 unfunded_world sample_server))) = ''completed''"
  by (simp add: server_defs prog_defs sample_defs unfunded_world_def wait_for_approval.simps maxAttempts_def
      sample_srcImmutables_def sample_dstImmutables_def)


section \<open>Properties: the authorization timeout\<close>

lemma poll_once_never:
  assumes "\<forall>n v. uint_reply W n (Allowance Src owner spender) = Inr v \<longrightarrow> v < amt"
  shows "poll_once W owner spender amt s =
           Inr (False, s \<lparr> trace := trace s @ failed_polls W (Allowance Src owner spender) (length (trace s)) 1 \<rparr>)"
proof (cases "uint_reply W (length (trace s)) (Allowance Src owner spender)")
  case (Inl msg)
  then show ?thesis
    by (simp add: poll_once_def try_catch_def andThen_def call_uint_def sleep_def ret_def record_call_def
        uint_as_reply_def)
next
  case (Inr v)
  then have "v < amt" using assms by blast
  then show ?thesis using Inr
    by (simp add: poll_once_def try_catch_def andThen_def call_uint_def sleep_def ret_def record_call_def
        uint_as_reply_def)
qed

lemma failed_polls_append:
  "failed_polls W c n (Suc k) = failed_polls W c n 1 @ failed_polls W c (n + 2) k"
  by simp

lemma wait_for_approval_never:
  assumes "\<forall>n v. uint_reply W n (Allowance Src owner spender) = Inr v \<longrightarrow> v < amt"
  shows "wait_for_approval W owner spender amt attempts s =
           Inr (False, s \<lparr> trace := trace s @ failed_polls W (Allowance Src owner spender)
                                                 (length (trace s)) (maxAttempts - attempts) \<rparr>)"
  using assms
proof (induction W owner spender amt attempts arbitrary: s rule: wait_for_approval.induct)
  case (1 W owner spender amt attempts)
  show ?case
  proof (cases "attempts < maxAttempts")
    case False
    then show ?thesis
      by (subst wait_for_approval.simps) (simp add: ret_def)
  next
    case True
    then obtain k where k: "maxAttempts - attempts = Suc k" "maxAttempts - (attempts + 1) = k"
      by (metis Suc_diff_Suc Suc_eq_plus1 diff_diff_left)
    let ?s1 = "s \<lparr> trace := trace s @ failed_polls W (Allowance Src owner spender) (length (trace s)) 1 \<rparr>"
    have p: "poll_once W owner spender amt s = Inr (False, ?s1)"
      using poll_once_never [OF "1.prems"] .
    have r: "wait_for_approval W owner spender amt (attempts + 1) ?s1 =
               Inr (False, ?s1 \<lparr> trace := trace ?s1 @ failed_polls W (Allowance Src owner spender)
                                                 (length (trace ?s1)) k \<rparr>)"
      using "1.IH" [OF True _ "1.prems", of False ?s1] k by simp
    have "wait_for_approval W owner spender amt attempts s
            = wait_for_approval W owner spender amt (attempts + 1) ?s1"
      by (subst wait_for_approval.simps) (simp only: True if_True andThen_def p sum.case prod.case if_False)
    also note r
    also have "?s1 \<lparr> trace := trace ?s1 @ failed_polls W (Allowance Src owner spender) (length (trace ?s1)) k \<rparr>
                = s \<lparr> trace := trace s @ failed_polls W (Allowance Src owner spender)
                                                 (length (trace s)) (maxAttempts - attempts) \<rparr>"
      by (simp add: k)
    finally show ?thesis .
  qed
qed

lemma failed_polls_calls:
  "(c', r') \<in> set (failed_polls W c n k) \<Longrightarrow> c' = c \<or> c' = Sleep 5000"
  by (induction k arbitrary: n) auto

lemma length_failed_polls: "length (failed_polls W c n k) = 2 * k"
  by (induction k arbitrary: n) auto


text \<open>
  C2. Suppose steps 1 and 2 of the second server succeed, so that the wait for the user's
  approval begins, and no read of the user's allowance to the relayer ever returns the
  swap amount or more (a read may also throw). Then the loop makes exactly
  \<open>maxAttempts = 60\<close> reads, each followed by a pause of 5000 ms, and nothing else; the
  swap ends with status \<open>failed\<close> and the error \<open>User approval timeout - user must
  approve USDC spending\<close>, stored in the registry under its orderHash; and the whole trace
  holds no creation of the source escrow and no withdrawal call, so the secret is never
  submitted.
\<close>

theorem authorization_timeout:
  assumes never: "\<forall>n v. uint_reply W n (Allowance Src (userAddress (swapData st)) (relayerAddress W)) = Inr v \<longrightarrow> v < sd_amount (swapData st)"
    and reached: "andThen (approve_dst W) (\<lambda>_. create_dst_escrow W) (start st) = Inr (dstEscrow, s1)"
  shows "status (swapData (store (executeSwapAsync W st))) = ''failed''
       \<and> error (swapData (store (executeSwapAsync W st)))
           = Some ''User approval timeout - user must approve USDC spending''
       \<and> registry_of (store (executeSwapAsync W st)) (sd_orderHash (swapData st))
           = Some (swapData (store (executeSwapAsync W st)))
       \<and> trace (executeSwapAsync W st)
           = trace s1 @ failed_polls W (Allowance Src (userAddress (swapData st)) (relayerAddress W)) (length (trace s1)) maxAttempts
       \<and> list_all (\<lambda>e. \<not> is_create_src (fst e) \<and> \<not> is_withdraw (fst e)) (trace (executeSwapAsync W st))"
proof -
  let ?P = "\<lambda>c. \<not> is_withdraw c \<and> \<not> is_create_src c"
  let ?m = "andThen (approve_dst W) (\<lambda>_. create_dst_escrow W)"
  have ok: "server_ok ?P ?m"
    by (intro ok_intros ok_approve_dst ok_create_dst_escrow) simp_all
  have e1: "end_state (?m (start st)) = s1" using reached by (simp add: end_state_def)
  have c1: "core (swapData (store s1)) = core (swapData st)"
    using server_okD(2) [OF ok, of "start st"] e1 by (simp add: start_def)
  have t1: "list_all (\<lambda>e. ?P (fst e)) (trace s1)"
    using server_okD(1) [OF ok, of "start st"] e1 by (auto simp add: start_def)
  let ?c = "Allowance Src (userAddress (swapData st)) (relayerAddress W)"
  let ?msg = "''User approval timeout - user must approve USDC spending''"
  let ?k = "sd_orderHash (swapData st)"
  let ?d1 = "(swapData (store s1)) \<lparr> status := ''waiting_src_approval'' \<rparr>"
  let ?st2 = "(store s1) \<lparr> objects := (objects (store s1)) (swapData_ref (store s1) := ?d1),
                           activeSwaps := (activeSwaps (store s1)) (?k \<mapsto> swapData_ref (store s1)) \<rparr>"
  let ?s2 = "s1 \<lparr> store := ?st2, trace := trace s1 @ failed_polls W ?c (length (trace s1)) maxAttempts \<rparr>"
  let ?d3 = "?d1 \<lparr> status := ''failed'', error := Some ?msg \<rparr>"
  let ?st3 = "?st2 \<lparr> objects := (objects ?st2) (swapData_ref (store s1) := ?d3),
                     activeSwaps := (activeSwaps ?st2) (?k \<mapsto> swapData_ref (store s1)) \<rparr>"
  have f: "userAddress (swapData (store s1)) = userAddress (swapData st)"
    "sd_amount (swapData (store s1)) = sd_amount (swapData st)"
    "sd_orderHash (swapData (store s1)) = ?k"
    using c1 by (simp_all add: core_def)
  have w: "wait_src_approval W s1 = Inl (Thrown ?msg, ?s2)"
    by (simp add: wait_src_approval_def andThen_def enter_status_def update_swapData_def activeSwaps_set_def
        get_swapData_def f wait_for_approval_never [OF never] throw_def)
  have l: "lock_funds W (start st) = Inl (Thrown ?msg, ?s2)"
    using reached w by (auto simp add: lock_funds_def andThen_def split: sum.splits)
  have s: "swap_steps W (start st) = Inl (Thrown ?msg, ?s2)"
    using l by (simp add: swap_steps_def andThen_def)
  have fin: "executeSwapAsync W st = ?s2 \<lparr> store := ?st3 \<rparr>"
    by (simp add: executeSwapAsync_def try_catch_def s on_failure_def andThen_def update_swapData_def
        activeSwaps_set_def end_state_def f)
  have d3: "swapData ?st3 = ?d3" "registry_of ?st3 ?k = Some ?d3"
    by (simp_all add: swapData_def registry_of_def)
  have polls: "list_all (\<lambda>e. ?P (fst e)) (failed_polls W ?c (length (trace s1)) maxAttempts)"
    unfolding list_all_iff using failed_polls_calls by fastforce
  show ?thesis
    unfolding fin using t1 polls d3 by (auto simp add: list_all_iff)
qed


text \<open>The theorem in the world where the allowance always reads 0: eight calls, then sixty polls.\<close>

theorem authorization_timeout_witness:
  "status (swapData (store (executeSwapAsync unapproved_world sample_server))) = ''failed''
   \<and> error (swapData (store (executeSwapAsync unapproved_world sample_server)))
       = Some ''User approval timeout - user must approve USDC spending''
   \<and> length (trace (executeSwapAsync unapproved_world sample_server)) = 8 + 2 * 60
   \<and> list_all (\<lambda>e. \<not> is_create_src (fst e) \<and> \<not> is_withdraw (fst e))
        (trace (executeSwapAsync unapproved_world sample_server))"
proof -
  have never: "\<forall>n v. uint_reply unapproved_world n
      (Allowance Src (userAddress (swapData sample_server)) (relayerAddress unapproved_world)) = Inr v
        \<longrightarrow> v < sd_amount (swapData sample_server)"
    by (simp add: unapproved_world_def sample_defs)
  have "\<exists>dstEscrow s1. andThen (approve_dst unapproved_world) (\<lambda>_. create_dst_escrow unapproved_world)
          (start sample_server) = Inr (dstEscrow, s1) \<and> length (trace s1) = 8"
    by (simp add: server_defs prog_defs sample_defs unapproved_world_def unfunded_world_def)
  then obtain dstEscrow s1 where reached:
    "andThen (approve_dst unapproved_world) (\<lambda>_. create_dst_escrow unapproved_world)
       (start sample_server) = Inr (dstEscrow, s1)" and len: "length (trace s1) = 8"
    by blast
  note T = authorization_timeout [OF never reached]
  have "length (trace (executeSwapAsync unapproved_world sample_server)) = 8 + 2 * 60"
    using T len by (simp add: length_failed_polls maxAttempts_def)
  with T show ?thesis by blast
qed


section \<open>Properties: the order of the two withdrawals\<close>

lemma withdraw_with_retry_Inr:
  assumes "withdraw_with_retry W ch escrow sec imm failure s = Inr (u, s')"
  shows "\<exists>g. (Withdraw ch escrow [Bytes32 sec, Tuple imm] g, Done) \<in> set (trace s')"
  using assms
  by (auto simp add: withdraw_with_retry_def try_catch_def andThen_def call_uint_def call_tx_def
      record_call_def ret_def throw_def split: sum.splits prod.splits abrupt.splits)

lemma ok_withdraw_src: "server_ok (\<lambda>c. \<not> is_withdraw_on Dst c) (withdraw_src W src)"
  unfolding withdraw_src_def by (intro ok_intros ok_withdraw_with_retry) simp_all

lemma ok_withdraw_dst: "server_ok (\<lambda>c. True) (withdraw_dst W dst)"
  unfolding withdraw_dst_def by (intro ok_intros ok_withdraw_with_retry) simp_all

lemma ok_after_withdrawals: "server_ok (\<lambda>c. \<not> is_withdraw c) (andThen (transfer_to_user W) (\<lambda>_. mark_completed W))"
  unfolding transfer_to_user_def mark_completed_def by (intro ok_intros) (simp_all add: core_def)

lemma not_withdraw_on: "\<not> is_withdraw c \<Longrightarrow> \<not> is_withdraw_on ch c"
  by (cases c) auto

lemma status_on_failure:
  "status (swapData (store (end_state (on_failure msg s)))) = ''failed''"
  by (simp add: on_failure_def andThen_def update_swapData_def activeSwaps_set_def end_state_def)

lemma completed_steps:
  assumes "status (swapData (store (end_state (try_catch m on_failure s)))) = ''completed''"
    and "server_ok P m"
  shows "\<exists>u s'. m s = Inr (u, s')"
proof (cases "m s")
  case (Inr r)
  then show ?thesis by (cases r) auto
next
  case (Inl r)
  obtain e s1 where r: "r = (e, s1)" by (cases r)
  show ?thesis
  proof (cases e)
    case Returned
    then show ?thesis using server_okD(3) [OF assms(2), of s s1] Inl r by simp
  next
    case (Thrown msg)
    then have "try_catch m on_failure s = on_failure msg s1"
      using Inl r by (simp add: try_catch_def)
    then show ?thesis using assms(1) status_on_failure [of msg s1] by simp
  qed
qed

lemma ok_swap_steps: "server_ok (\<lambda>c. True) (swap_steps W)"
  unfolding swap_steps_def lock_funds_def approve_dst_def create_dst_escrow_def dst_escrow_from_receipt_def
    wait_src_approval_def transfer_and_approve_src_def create_src_escrow_def src_escrow_from_receipt_def
    verify_funds_locked_def release_funds_def withdraw_src_def withdraw_dst_def withdraw_with_retry_def
    transfer_to_user_def mark_completed_def
  by (intro ok_intros) (simp_all add: core_def)

lemma source_first:
  assumes completed: "status (swapData (store (executeSwapAsync W st))) = ''completed''"
  shows "\<exists>src dst g g'.
           (\<forall>pre c r post. trace (executeSwapAsync W st) = pre @ (c, r) # post \<longrightarrow> is_withdraw_on Dst c \<longrightarrow>
              (Withdraw Src src [Bytes32 (secret (swapData st)), Tuple (srcImmutables (swapData st))] g, Done) \<in> set pre)
         \<and> (Withdraw Dst dst [Bytes32 (secret (swapData st)), Tuple (dstImmutables (swapData st))] g', Done)
              \<in> set (trace (executeSwapAsync W st))"
proof -
  let ?s0 = "start st"
  from completed_steps [OF completed [unfolded executeSwapAsync_def] ok_swap_steps]
  obtain u s' where run: "swap_steps W ?s0 = Inr (u, s')" by blast
  then have fin: "trace (executeSwapAsync W st) = trace s'"
    by (simp add: executeSwapAsync_def try_catch_def end_state_def)
  from run obtain src dst s1 where l: "lock_funds W ?s0 = Inr ((src, dst), s1)"
    by (auto simp add: swap_steps_def andThen_def split: sum.splits)
  from run l obtain s2 where v: "verify_funds_locked W src dst s1 = Inr ((), s2)"
    by (auto simp add: swap_steps_def andThen_def split: sum.splits)
  from run l v have rel: "release_funds W src dst s2 = Inr (u, s')"
    by (simp add: swap_steps_def andThen_def)
  let ?s3 = "record_call (Sleep 10000) Done s2"
  from rel obtain s4 where ws: "withdraw_src W src ?s3 = Inr ((), s4)"
    by (auto simp add: release_funds_def andThen_def sleep_def split: sum.splits)
  from rel ws obtain s5 where wd: "withdraw_dst W dst s4 = Inr ((), s5)"
    by (auto simp add: release_funds_def andThen_def sleep_def split: sum.splits)
  from rel ws wd have rest: "andThen (transfer_to_user W) (\<lambda>_. mark_completed W) s5 = Inr (u, s')"
    by (simp add: release_funds_def andThen_def sleep_def)
  have c1: "core (swapData (store s1)) = core (swapData st)"
    using server_okD(2) [OF ok_lock_funds, of W ?s0] l by (simp add: end_state_def start_def)
  have c2: "core (swapData (store s2)) = core (swapData st)"
    using server_okD(2) [OF ok_verify_funds_locked, of W src dst s1] v c1 by (simp add: end_state_def)
  have c3: "core (swapData (store ?s3)) = core (swapData st)" using c2 by (simp add: record_call_def)
  have c4: "core (swapData (store s4)) = core (swapData st)"
    using server_okD(2) [OF ok_withdraw_src, of W src ?s3] ws c3 by (simp add: end_state_def)
  have n1: "list_all (\<lambda>e. \<not> is_withdraw (fst e)) (trace s1)"
    using server_okD(1) [OF ok_lock_funds, of W ?s0] l by (auto simp add: end_state_def start_def)
  have n2: "list_all (\<lambda>e. \<not> is_withdraw (fst e)) (trace s2)"
    using server_okD(1) [OF ok_verify_funds_locked, of W src dst s1] v n1 by (auto simp add: end_state_def)
  have n3: "list_all (\<lambda>e. \<not> is_withdraw_on Dst (fst e)) (trace ?s3)"
    using n2 by (auto simp add: record_call_def list_all_iff not_withdraw_on)
  have n4: "list_all (\<lambda>e. \<not> is_withdraw_on Dst (fst e)) (trace s4)"
    using server_okD(1) [OF ok_withdraw_src, of W src ?s3] ws n3 by (auto simp add: end_state_def)
  obtain g where g: "(Withdraw Src src [Bytes32 (secret (swapData st)), Tuple (srcImmutables (swapData st))] g, Done) \<in> set (trace s4)"
    using ws c3 withdraw_with_retry_Inr [of W Src src "secret (swapData st)" "srcImmutables (swapData st)" _ _ "()" s4]
    by (auto simp add: withdraw_src_def andThen_def enter_status_def update_swapData_def activeSwaps_set_def
        get_swapData_def core_def record_call_def)
  obtain g' where g': "(Withdraw Dst dst [Bytes32 (secret (swapData st)), Tuple (dstImmutables (swapData st))] g', Done) \<in> set (trace s5)"
    using wd c4 withdraw_with_retry_Inr [of W Dst dst "secret (swapData st)" "dstImmutables (swapData st)" _ _ "()" s5]
    by (auto simp add: withdraw_dst_def andThen_def enter_status_def update_swapData_def activeSwaps_set_def
        get_swapData_def core_def)
  obtain new5 where t5: "trace s5 = trace s4 @ new5"
    using server_okD(1) [OF ok_withdraw_dst, of W dst s4] wd by (auto simp add: end_state_def)
  obtain new6 where t6: "trace s' = trace s5 @ new6" "list_all (\<lambda>e. \<not> is_withdraw (fst e)) new6"
    using server_okD(1) [OF ok_after_withdrawals, of W s5] rest by (auto simp add: end_state_def)
  show ?thesis
  proof (intro exI conjI allI impI)
    show "(Withdraw Dst dst [Bytes32 (secret (swapData st)), Tuple (dstImmutables (swapData st))] g', Done)
            \<in> set (trace (executeSwapAsync W st))"
      using g' t6 fin by simp
  next
    fix pre c r post
    assume eq: "trace (executeSwapAsync W st) = pre @ (c, r) # post" and d: "is_withdraw_on Dst c"
    have "trace s4 @ (new5 @ new6) = pre @ (c, r) # post" using eq fin t5 t6 by simp
    from split_after_prefix [OF this, of "\<lambda>e. is_withdraw_on Dst (fst e)"] n4 d
    obtain pre' where "pre = trace s4 @ pre'" by (auto simp add: list_all_iff)
    then show "(Withdraw Src src [Bytes32 (secret (swapData st)), Tuple (srcImmutables (swapData st))] g, Done) \<in> set pre"
      using g by simp
  qed
qed


lemma preceded_byI:
  assumes "\<And>pre c r post. tr = pre @ (c, r) # post \<Longrightarrow> B c \<Longrightarrow> a \<in> set pre"
  shows "preceded_by a B tr"
  using assms
proof (induction tr)
  case Nil
  then show ?case by simp
next
  case (Cons e es)
  show ?case
  proof (cases "e = a")
    case True
    then show ?thesis by simp
  next
    case False
    have "\<not> B (fst e)"
      using Cons.prems [of "[]" "fst e" "snd e" es] by auto
    moreover have "preceded_by a B es"
    proof (rule Cons.IH)
      fix pre c r post
      assume "es = pre @ (c, r) # post" "B c"
      then have "a \<in> set (e # pre)" using Cons.prems [of "e # pre" c r post] by simp
      then show "a \<in> set pre" using False by auto
    qed
    ultimately show ?thesis using False by simp
  qed
qed

lemma ok_approve_dst_v1: "\<forall>c. \<not> is_withdraw c \<longrightarrow> P c \<Longrightarrow> server_ok P (approve_dst_v1 W)"
  unfolding approve_dst_v1_def by (intro ok_intros) simp_all

lemma ok_lock_funds_v1: "server_ok (\<lambda>c. \<not> is_withdraw c) (lock_funds_v1 W)"
  unfolding lock_funds_v1_def approve_dst_v1_def create_dst_escrow_v1_def wait_src_approval_v1_def
    create_src_escrow_v1_def
  by (intro ok_intros) (simp_all add: core_def)

lemma ok_swap_steps_v1: "server_ok (\<lambda>c. True) (swap_steps_v1 W)"
  unfolding swap_steps_v1_def lock_funds_v1_def approve_dst_v1_def create_dst_escrow_v1_def
    wait_src_approval_v1_def create_src_escrow_v1_def release_funds_v1_def withdraw_src_v1_def
    withdraw_dst_v1_def transfer_to_user_v1_def mark_completed_def
  by (intro ok_intros) (simp_all add: core_def)

lemma ok_after_withdrawals_v1:
  "server_ok (\<lambda>c. \<not> is_withdraw c) (andThen (transfer_to_user_v1 W) (\<lambda>_. mark_completed W))"
  unfolding transfer_to_user_v1_def mark_completed_def by (intro ok_intros) (simp_all add: core_def)

lemma withdraw_src_v1_Inr:
  assumes "withdraw_src_v1 W a s = Inr (u, s')"
  shows "trace s' = trace s @ [(Withdraw Src a [Bytes32 (secret (swapData (store s))),
                                  Tuple (srcImmutables (swapData (store s)))] None, Done)]
       \<and> core (swapData (store s')) = core (swapData (store s))"
  using assms
  by (auto simp add: withdraw_src_v1_def andThen_def enter_status_def update_swapData_def activeSwaps_set_def
      get_swapData_def call_tx_def record_call_def core_def split: sum.splits)

lemma withdraw_dst_v1_Inr:
  assumes "withdraw_dst_v1 W a s = Inr (u, s')"
  shows "trace s' = trace s @ [(Withdraw Dst a [Bytes32 (secret (swapData (store s))),
                                  Tuple (dstImmutables (swapData (store s)))] None, Done)]
       \<and> core (swapData (store s')) = core (swapData (store s))"
  using assms
  by (auto simp add: withdraw_dst_v1_def andThen_def enter_status_def update_swapData_def activeSwaps_set_def
      get_swapData_def call_tx_def record_call_def core_def split: sum.splits)

lemma source_first_v1:
  assumes completed: "status (swapData (store (executeSwapAsync_v1 W st))) = ''completed''"
  shows "\<exists>src dst.
           (\<forall>pre c r post. trace (executeSwapAsync_v1 W st) = pre @ (c, r) # post \<longrightarrow> is_withdraw_on Dst c \<longrightarrow>
              (Withdraw Src src [Bytes32 (secret (swapData st)), Tuple (srcImmutables (swapData st))] None, Done) \<in> set pre)
         \<and> (Withdraw Dst dst [Bytes32 (secret (swapData st)), Tuple (dstImmutables (swapData st))] None, Done)
              \<in> set (trace (executeSwapAsync_v1 W st))"
proof -
  let ?s0 = "start st"
  from completed_steps [OF completed [unfolded executeSwapAsync_v1_def] ok_swap_steps_v1]
  obtain u s' where run: "swap_steps_v1 W ?s0 = Inr (u, s')" by blast
  then have fin: "trace (executeSwapAsync_v1 W st) = trace s'"
    by (simp add: executeSwapAsync_v1_def try_catch_def end_state_def)
  from run obtain src dst s1 where l: "lock_funds_v1 W ?s0 = Inr ((src, dst), s1)"
    by (auto simp add: swap_steps_v1_def andThen_def split: sum.splits)
  from run l have rel: "release_funds_v1 W src dst s1 = Inr (u, s')"
    by (simp add: swap_steps_v1_def andThen_def)
  have c1: "core (swapData (store s1)) = core (swapData st)"
    using server_okD(2) [OF ok_lock_funds_v1, of W ?s0] l by (simp add: end_state_def start_def)
  have n1: "list_all (\<lambda>e. \<not> is_withdraw (fst e)) (trace s1)"
    using server_okD(1) [OF ok_lock_funds_v1, of W ?s0] l by (auto simp add: end_state_def start_def)
  let ?s3 = "record_call (Sleep 10000) Done s1"
  from rel obtain s4 where ws: "withdraw_src_v1 W src ?s3 = Inr ((), s4)"
    by (auto simp add: release_funds_v1_def andThen_def sleep_def split: sum.splits)
  from rel ws obtain s5 where wd: "withdraw_dst_v1 W dst s4 = Inr ((), s5)"
    by (auto simp add: release_funds_v1_def andThen_def sleep_def split: sum.splits)
  from rel ws wd have rest: "andThen (transfer_to_user_v1 W) (\<lambda>_. mark_completed W) s5 = Inr (u, s')"
    by (simp add: release_funds_v1_def andThen_def sleep_def)
  let ?ws = "(Withdraw Src src [Bytes32 (secret (swapData st)), Tuple (srcImmutables (swapData st))] None, Done)"
  let ?wd = "(Withdraw Dst dst [Bytes32 (secret (swapData st)), Tuple (dstImmutables (swapData st))] None, Done)"
  let ?t4 = "trace s1 @ [(Sleep 10000, Done), ?ws]"
  have c3: "core (swapData (store ?s3)) = core (swapData st)" using c1 by (simp add: record_call_def)
  have t4: "trace s4 = ?t4" and c4: "core (swapData (store s4)) = core (swapData st)"
    using withdraw_src_v1_Inr [OF ws] c3 by (simp_all add: core_def record_call_def)
  have t5: "trace s5 = ?t4 @ [?wd]"
    using withdraw_dst_v1_Inr [OF wd] c4 t4 by (simp add: core_def)
  obtain new6 where t6: "trace s' = trace s5 @ new6"
    using server_okD(1) [OF ok_after_withdrawals_v1, of W s5] rest by (auto simp add: end_state_def)
  have n4: "\<forall>e\<in>set ?t4. \<not> is_withdraw_on Dst (fst e)"
    using n1 by (auto simp add: list_all_iff not_withdraw_on)
  show ?thesis
  proof (intro exI conjI allI impI)
    show "?wd \<in> set (trace (executeSwapAsync_v1 W st))"
      using t5 t6 fin by simp
  next
    fix pre c r post
    assume eq: "trace (executeSwapAsync_v1 W st) = pre @ (c, r) # post" and d: "is_withdraw_on Dst c"
    have "?t4 @ ([?wd] @ new6) = pre @ (c, r) # post" using eq fin t5 t6 by simp
    from split_after_prefix [OF this, of "\<lambda>e. is_withdraw_on Dst (fst e)"] n4 d
    obtain pre' where "pre = ?t4 @ pre'" by auto
    then show "?ws \<in> set pre" by simp
  qed
qed


lemma executeSwapAsync_completes_when_funded:
  "status (swapData (store (executeSwapAsync funded_world sample_server))) = ''completed''"
  by (simp add: server_defs prog_defs sample_defs funded_world_def unfunded_world_def
      wait_for_approval.simps maxAttempts_def)





section \<open>Properties: the swap registry\<close>

text \<open>
  Rules for \<open>leads\<close>: a part that does not assign to the swap or to the Map keeps
  whatever holds of the memory, and a sequence leads to \<open>J\<close> when its first part does and
  the rest keeps \<open>J\<close>.
\<close>

named_theorems leads_intros

lemma leads_ret [leads_intros]: "leads I I (ret x)"
  by (simp add: leads_def ret_def end_state_def)

lemma leads_throw [leads_intros]: "leads I I (throw msg)"
  by (simp add: leads_def throw_def end_state_def)

lemma leads_andThen [leads_intros]:
  assumes "leads I J m" and "\<And>x. leads J J (f x)"
  shows "leads I J (andThen m f)"
  unfolding leads_def
proof (intro allI impI)
  fix s :: "server_state exec" assume i: "I (store s)"
  then have j: "J (store (end_state (m s)))" using assms(1) by (simp add: leads_def)
  show "J (store (end_state (andThen m f s)))"
  proof (cases "m s")
    case (Inl e)
    then show ?thesis using j by (simp add: andThen_def end_state_def)
  next
    case (Inr r)
    obtain x s1 where r: "r = (x, s1)" by (cases r)
    have "J (store s1)" using j Inr r by (simp add: end_state_def)
    then have "J (store (end_state (f x s1)))" using assms(2) [of x] by (simp add: leads_def)
    then show ?thesis using Inr r by (simp add: andThen_def)
  qed
qed

lemma leads_try_catch [leads_intros]:
  assumes "leads I J m" and "\<And>msg. leads J J (h msg)"
  shows "leads I J (try_catch m h)"
  unfolding leads_def
proof (intro allI impI)
  fix s :: "server_state exec" assume i: "I (store s)"
  then have j: "J (store (end_state (m s)))" using assms(1) by (simp add: leads_def)
  show "J (store (end_state (try_catch m h s)))"
  proof (cases "m s")
    case (Inr r)
    then show ?thesis using j by (simp add: try_catch_def end_state_def)
  next
    case (Inl r)
    obtain e s1 where r: "r = (e, s1)" by (cases r)
    have j1: "J (store s1)" using j Inl r by (simp add: end_state_def)
    show ?thesis
    proof (cases e)
      case Returned
      then show ?thesis using j1 Inl r by (simp add: try_catch_def end_state_def)
    next
      case (Thrown msg)
      have "J (store (end_state (h msg s1)))" using j1 assms(2) [of msg] by (simp add: leads_def)
      then show ?thesis using Inl r Thrown by (simp add: try_catch_def)
    qed
  qed
qed

lemma leads_if [leads_intros]:
  "(b \<Longrightarrow> leads I J m) \<Longrightarrow> (\<not> b \<Longrightarrow> leads I J n) \<Longrightarrow> leads I J (if b then m else n)"
  by simp

lemma leads_case_option [leads_intros]:
  "leads I J m \<Longrightarrow> (\<And>a. leads I J (f a)) \<Longrightarrow> leads I J (case x of None \<Rightarrow> m | Some a \<Rightarrow> f a)"
  by (cases x) simp_all

lemma leads_case_prod [leads_intros]:
  "(\<And>a b. leads I J (f a b)) \<Longrightarrow> leads I J (case x of (a, b) \<Rightarrow> f a b)"
  by (cases x) simp

lemma leads_call_uint [leads_intros]: "leads I I (call_uint W c)"
  by (auto simp add: leads_def call_uint_def end_state_def record_call_def split: sum.splits)

lemma leads_call_tx [leads_intros]: "leads I I (call_tx W c)"
  by (auto simp add: leads_def call_tx_def end_state_def record_call_def split: sum.splits)

lemma leads_call_logs [leads_intros]: "leads I I (call_logs W c)"
  by (auto simp add: leads_def call_logs_def end_state_def record_call_def split: sum.splits)

lemma leads_call_address [leads_intros]: "leads I I (call_address W c)"
  by (auto simp add: leads_def call_address_def end_state_def record_call_def split: sum.splits)

lemma leads_sleep [leads_intros]: "leads I I (sleep ms)"
  by (simp add: leads_def sleep_def end_state_def record_call_def)

lemma leads_now_seconds [leads_intros]: "leads I I (now_seconds W)"
  by (simp add: leads_def now_seconds_def end_state_def)

lemma leads_iso_now [leads_intros]: "leads I I (iso_now W)"
  by (simp add: leads_def iso_now_def end_state_def)

lemma leads_get_swapData [leads_intros]: "leads I I get_swapData"
  by (simp add: leads_def get_swapData_def end_state_def)

lemma leads_find_src_escrow [leads_intros]: "leads I I (find_src_escrow W logs)"
  by (induction W logs rule: find_src_escrow.induct) (auto intro!: leads_intros)

lemma leads_poll_once [leads_intros]: "leads I I (poll_once W owner spender amt)"
  unfolding poll_once_def by (intro leads_intros)

lemma leads_wait_for_approval [leads_intros]: "leads I I (wait_for_approval W owner spender amt attempts)"
proof (induction W owner spender amt attempts rule: wait_for_approval.induct)
  case (1 W owner spender amt attempts)
  show ?case
    by (subst wait_for_approval.simps) (auto intro!: leads_intros 1 simp del: wait_for_approval.simps)
qed

lemma leads_activeSwaps_set [leads_intros]: "leads (holds_entry k P) (holds_entry k P) activeSwaps_set"
  by (simp add: leads_def activeSwaps_set_def end_state_def holds_entry_def)

lemma leads_update_swapData [leads_intros]:
  "(\<And>d. P d \<Longrightarrow> P (f d)) \<Longrightarrow> (\<And>d. sd_orderHash (f d) = sd_orderHash d) \<Longrightarrow>
   leads (holds_entry k P) (holds_entry k P) (update_swapData f)"
  by (simp add: leads_def update_swapData_def end_state_def holds_entry_def)

lemma leads_enter_status_first:
  "leads (\<lambda>st. sd_orderHash (swapData st) = k) (holds_entry k (\<lambda>d. True)) (enter_status x)"
  by (simp add: leads_def enter_status_def andThen_def update_swapData_def activeSwaps_set_def end_state_def
      holds_entry_def)

lemma leads_enter_status [leads_intros]:
  "(\<And>d. P d \<Longrightarrow> P (d \<lparr> status := x \<rparr>)) \<Longrightarrow> leads (holds_entry k P) (holds_entry k P) (enter_status x)"
  unfolding enter_status_def by (intro leads_intros) simp_all


text \<open>Rules for \<open>returns\<close>: only the last part of a sequence matters.\<close>

named_theorems returns_intros

lemma returns_throw [returns_intros]: "returns Q (throw msg)"
  by (simp add: returns_def throw_def)

lemma returns_andThen [returns_intros]: "(\<And>x. returns Q (f x)) \<Longrightarrow> returns Q (andThen m f)"
  by (auto simp add: returns_def andThen_def split: sum.splits)

lemma returns_try_catch [returns_intros]:
  "returns Q m \<Longrightarrow> (\<And>msg. returns Q (h msg)) \<Longrightarrow> returns Q (try_catch m h)"
  by (auto simp add: returns_def try_catch_def split: sum.splits abrupt.splits)

lemma returns_if [returns_intros]:
  "(b \<Longrightarrow> returns Q m) \<Longrightarrow> (\<not> b \<Longrightarrow> returns Q n) \<Longrightarrow> returns Q (if b then m else n)"
  by simp

lemma returns_case_option [returns_intros]:
  "returns Q m \<Longrightarrow> (\<And>a. returns Q (f a)) \<Longrightarrow> returns Q (case x of None \<Rightarrow> m | Some a \<Rightarrow> f a)"
  by (cases x) simp_all

lemma returns_dst_escrow_from_receipt:
  "returns (\<lambda>a st. dstEscrowAddress (swapData st) = Some a) (dst_escrow_from_receipt W)"
  by (auto simp add: returns_def dst_escrow_from_receipt_def andThen_def call_logs_def update_swapData_def
      ret_def throw_def split: sum.splits option.splits)

lemma returns_create_dst_escrow:
  "returns (\<lambda>a st. dstEscrowAddress (swapData st) = Some a) (create_dst_escrow W)"
  unfolding create_dst_escrow_def by (intro returns_intros returns_dst_escrow_from_receipt)

lemma returns_src_escrow_from_receipt:
  "returns (\<lambda>a st. srcEscrowAddress (swapData st) = Some a) (src_escrow_from_receipt W)"
  by (auto simp add: returns_def src_escrow_from_receipt_def andThen_def call_logs_def update_swapData_def
      ret_def throw_def split: sum.splits option.splits prod.splits)

lemma returns_create_src_escrow:
  "returns (\<lambda>a st. srcEscrowAddress (swapData st) = Some a) (create_src_escrow W)"
  unfolding create_src_escrow_def by (intro returns_intros returns_src_escrow_from_receipt)

lemma returnsD: "returns Q m \<Longrightarrow> m s = Inr (x, s') \<Longrightarrow> Q x (store s')"
  by (simp add: returns_def)

lemma leadsD: "leads I J m \<Longrightarrow> I (store s) \<Longrightarrow> J (store (end_state (m s)))"
  by (simp add: leads_def)

text \<open>
  The first statement of the run puts the object into the Map under its own orderHash;
  no later statement takes it out, changes the orderHash, or assigns an escrow address
  other than the one it has just created.
\<close>

lemma leads_approve_dst_first:
  "leads (\<lambda>st. sd_orderHash (swapData st) = k) (holds_entry k (\<lambda>d. True)) (approve_dst W)"
  unfolding approve_dst_def
  by (rule leads_andThen [OF leads_enter_status_first]) (intro leads_intros)

lemma leads_create_dst_escrow:
  "leads (holds_entry k (\<lambda>d. True)) (holds_entry k (\<lambda>d. True)) (create_dst_escrow W)"
  unfolding create_dst_escrow_def dst_escrow_from_receipt_def by (intro leads_intros) simp_all

lemma leads_until_src_escrow:
  "leads (holds_entry k (\<lambda>d. dstEscrowAddress d = Some a)) (holds_entry k (\<lambda>d. dstEscrowAddress d = Some a))
     (andThen (wait_src_approval W) (\<lambda>_. andThen (transfer_and_approve_src W) (\<lambda>_. create_src_escrow W)))"
  unfolding wait_src_approval_def transfer_and_approve_src_def create_src_escrow_def src_escrow_from_receipt_def
  by (intro leads_intros) simp_all

lemma leads_after_escrows:
  "(\<And>d x. P d \<Longrightarrow> P (d \<lparr> status := x \<rparr>)) \<Longrightarrow>
   (\<And>d x t. P d \<Longrightarrow> P (d \<lparr> status := x, completedAt := t \<rparr>)) \<Longrightarrow>
   leads (holds_entry k P) (holds_entry k P)
     (andThen (verify_funds_locked W src dst) (\<lambda>_. release_funds W src dst))"
  unfolding verify_funds_locked_def release_funds_def withdraw_src_def withdraw_dst_def withdraw_with_retry_def
    transfer_to_user_def mark_completed_def
  by (intro leads_intros) simp_all

lemma leads_on_failure:
  "(\<And>d x e. P d \<Longrightarrow> P (d \<lparr> status := x, error := e \<rparr>)) \<Longrightarrow>
   leads (holds_entry k P) (holds_entry k P) (on_failure msg)"
  unfolding on_failure_def by (intro leads_intros) simp_all


lemma holds_entryD:
  "holds_entry k P st \<Longrightarrow> registry_of st k = Some (swapData st) \<and> P (swapData st)"
  by (simp add: holds_entry_def registry_of_def swapData_def)

lemma keyed_registry_of:
  "keyed_by_orderHash (registry_of st) \<longleftrightarrow> (\<forall>k r. activeSwaps st k = Some r \<longrightarrow> sd_orderHash (objects st r) = k)"
  by (auto simp add: keyed_by_orderHash_def registry_of_def split: option.splits)

lemma leads_keyed_update [leads_intros]:
  "(\<And>d. sd_orderHash (f d) = sd_orderHash d) \<Longrightarrow>
   leads (\<lambda>st. keyed_by_orderHash (registry_of st)) (\<lambda>st. keyed_by_orderHash (registry_of st)) (update_swapData f)"
  by (simp add: leads_def keyed_registry_of update_swapData_def end_state_def swapData_def)

lemma leads_keyed_set [leads_intros]:
  "leads (\<lambda>st. keyed_by_orderHash (registry_of st)) (\<lambda>st. keyed_by_orderHash (registry_of st)) activeSwaps_set"
  by (simp add: leads_def keyed_registry_of activeSwaps_set_def end_state_def swapData_def)

lemma leads_keyed_run:
  "leads (\<lambda>st. keyed_by_orderHash (registry_of st)) (\<lambda>st. keyed_by_orderHash (registry_of st))
     (try_catch (swap_steps W) on_failure)"
  unfolding swap_steps_def lock_funds_def approve_dst_def create_dst_escrow_def dst_escrow_from_receipt_def
    wait_src_approval_def transfer_and_approve_src_def create_src_escrow_def src_escrow_from_receipt_def
    verify_funds_locked_def release_funds_def withdraw_src_def withdraw_dst_def withdraw_with_retry_def
    transfer_to_user_def mark_completed_def on_failure_def enter_status_def
  by (intro leads_intros) simp_all

lemma leads_first_run:
  "leads (\<lambda>st. sd_orderHash (swapData st) = k) (holds_entry k (\<lambda>d. True)) (try_catch (swap_steps W) on_failure)"
proof -
  have 1: "leads (\<lambda>st. sd_orderHash (swapData st) = k) (holds_entry k (\<lambda>d. True)) (lock_funds W)"
    unfolding lock_funds_def
    apply (rule leads_andThen [OF leads_approve_dst_first])
    unfolding create_dst_escrow_def dst_escrow_from_receipt_def
      wait_src_approval_def transfer_and_approve_src_def create_src_escrow_def src_escrow_from_receipt_def
    by (intro leads_intros) simp_all
  have 2: "leads (\<lambda>st. sd_orderHash (swapData st) = k) (holds_entry k (\<lambda>d. True)) (swap_steps W)"
    unfolding swap_steps_def
    apply (rule leads_andThen [OF 1])
    apply (rule leads_case_prod)
    apply (rule leads_after_escrows)
    by simp_all
  show ?thesis
    by (rule leads_try_catch [OF 2]) (rule leads_on_failure, simp)
qed

lemma ok_on_failure: "server_ok P (on_failure msg)"
  unfolding on_failure_def by (intro ok_intros) (simp_all add: core_def)

text \<open>At the end of every run the Map holds the object, with its core fields as they were.\<close>

lemma any_run_recorded:
  "registry_of (store (executeSwapAsync W st)) (sd_orderHash (swapData st))
     = Some (swapData (store (executeSwapAsync W st)))
   \<and> core (swapData (store (executeSwapAsync W st))) = core (swapData st)"
proof -
  have "holds_entry (sd_orderHash (swapData st)) (\<lambda>d. True) (store (executeSwapAsync W st))"
    using leadsD [OF leads_first_run [of "sd_orderHash (swapData st)" W], of "start st"]
    by (simp add: executeSwapAsync_def start_def)
  moreover have "server_ok (\<lambda>c. True) (try_catch (swap_steps W) on_failure)"
    by (intro ok_try_catch ok_on_failure)
       (unfold swap_steps_def lock_funds_def approve_dst_def create_dst_escrow_def dst_escrow_from_receipt_def
          wait_src_approval_def transfer_and_approve_src_def create_src_escrow_def src_escrow_from_receipt_def
          verify_funds_locked_def release_funds_def withdraw_src_def withdraw_dst_def withdraw_with_retry_def
          transfer_to_user_def mark_completed_def, (intro ok_intros; simp add: core_def))
  then have "core (swapData (store (executeSwapAsync W st))) = core (swapData st)"
    using server_okD(2) [of "\<lambda>c. True" "try_catch (swap_steps W) on_failure" "start st"]
    by (simp add: executeSwapAsync_def start_def)
  ultimately show ?thesis using holds_entryD by blast
qed

text \<open>
  Once step 2 has returned the destination escrow's address, the entry holds it, then and
  at the end of the run.
\<close>

lemma dst_escrow_recorded:
  assumes reached: "andThen (approve_dst W) (\<lambda>_. create_dst_escrow W) (start st) = Inr (dst, s1)"
  shows "holds_entry (sd_orderHash (swapData st)) (\<lambda>d. dstEscrowAddress d = Some dst) (store s1)"
    and "holds_entry (sd_orderHash (swapData st)) (\<lambda>d. dstEscrowAddress d = Some dst)
           (store (executeSwapAsync W st))"
proof -
  let ?k = "sd_orderHash (swapData st)"
  let ?P = "\<lambda>d. dstEscrowAddress d = Some dst"
  from reached obtain sa where a: "approve_dst W (start st) = Inr ((), sa)"
    and c: "create_dst_escrow W sa = Inr (dst, s1)"
    by (auto simp add: andThen_def split: sum.splits)
  have "holds_entry ?k (\<lambda>d. True) (store sa)"
    using leadsD [OF leads_approve_dst_first [of ?k W], of "start st"] a by (simp add: start_def end_state_def)
  then have "holds_entry ?k (\<lambda>d. True) (store s1)"
    using leadsD [OF leads_create_dst_escrow [of ?k W], of sa] c by (simp add: end_state_def)
  moreover have "dstEscrowAddress (swapData (store s1)) = Some dst"
    using returnsD [OF returns_create_dst_escrow c] .
  ultimately show 1: "holds_entry ?k ?P (store s1)"
    by (simp add: holds_entry_def)
  let ?G = "andThen (wait_src_approval W) (\<lambda>_. andThen (transfer_and_approve_src W) (\<lambda>_. create_src_escrow W))"
  let ?F = "\<lambda>srcEscrow. andThen (verify_funds_locked W srcEscrow dst) (\<lambda>_. release_funds W srcEscrow dst)"
  have "swap_steps W (start st) = andThen ?G ?F s1"
    using a c by (simp add: swap_steps_def lock_funds_def andThen_def ret_def split: sum.splits)
  then have fin: "executeSwapAsync W st = end_state (try_catch (andThen ?G ?F) on_failure s1)"
    by (simp add: executeSwapAsync_def try_catch_def)
  have "leads (holds_entry ?k ?P) (holds_entry ?k ?P) (try_catch (andThen ?G ?F) on_failure)"
    by (intro leads_try_catch leads_andThen leads_until_src_escrow leads_after_escrows leads_on_failure) simp_all
  from leadsD [OF this 1] show "holds_entry ?k ?P (store (executeSwapAsync W st))"
    unfolding fin .
qed

text \<open>
  Once step 5 has returned the source escrow's address, the entry holds both addresses,
  then and at the end of the run.
\<close>

lemma both_escrows_recorded:
  assumes locked: "lock_funds W (start st) = Inr ((src, dst), s2)"
  shows "holds_entry (sd_orderHash (swapData st))
           (\<lambda>d. srcEscrowAddress d = Some src \<and> dstEscrowAddress d = Some dst) (store s2)"
    and "holds_entry (sd_orderHash (swapData st))
           (\<lambda>d. srcEscrowAddress d = Some src \<and> dstEscrowAddress d = Some dst)
           (store (executeSwapAsync W st))"
proof -
  let ?k = "sd_orderHash (swapData st)"
  let ?P = "\<lambda>d. srcEscrowAddress d = Some src \<and> dstEscrowAddress d = Some dst"
  let ?G = "andThen (wait_src_approval W) (\<lambda>_. andThen (transfer_and_approve_src W) (\<lambda>_. create_src_escrow W))"
  from locked obtain s1 where reached: "andThen (approve_dst W) (\<lambda>_. create_dst_escrow W) (start st) = Inr (dst, s1)"
    and g: "?G s1 = Inr (src, s2)"
    by (auto simp add: lock_funds_def andThen_def ret_def split: sum.splits)
  from g obtain sc where cs: "create_src_escrow W sc = Inr (src, s2)"
    by (auto simp add: andThen_def split: sum.splits)
  have "holds_entry ?k (\<lambda>d. dstEscrowAddress d = Some dst) (store s2)"
    using leadsD [OF leads_until_src_escrow [of ?k dst W] dst_escrow_recorded(1) [OF reached]] g
    by (simp add: end_state_def)
  moreover have "srcEscrowAddress (swapData (store s2)) = Some src"
    using returnsD [OF returns_create_src_escrow cs] .
  ultimately show 1: "holds_entry ?k ?P (store s2)"
    by (simp add: holds_entry_def)
  let ?F = "andThen (verify_funds_locked W src dst) (\<lambda>_. release_funds W src dst)"
  have "swap_steps W (start st) = ?F s2"
    using locked by (simp add: swap_steps_def andThen_def)
  then have fin: "executeSwapAsync W st = end_state (try_catch ?F on_failure s2)"
    by (simp add: executeSwapAsync_def try_catch_def)
  have "leads (holds_entry ?k ?P) (holds_entry ?k ?P) (try_catch ?F on_failure)"
    by (intro leads_try_catch leads_after_escrows leads_on_failure) simp_all
  from leadsD [OF this 1] show "holds_entry ?k ?P (store (executeSwapAsync W st))"
    unfolding fin .
qed



lemma sample_server_keyed: "keyed_by_orderHash (registry_of sample_server)"
  by (simp add: keyed_registry_of other_swap_def sample_defs)





section \<open>Properties: the multi-fill script\<close>

named_theorems emits_intros

lemma emits_ret [emits_intros]: "emits P (ret x)"
  by (simp add: emits_def ret_def end_state_def)

lemma emits_throw [emits_intros]: "emits P (throw msg)"
  by (simp add: emits_def throw_def end_state_def)

lemma emits_return_early [emits_intros]: "emits P return_early"
  by (simp add: emits_def return_early_def end_state_def)

lemma emits_andThen [emits_intros]:
  assumes "emits P m" and "\<And>x. emits P (f x)"
  shows "emits P (andThen m f)"
  unfolding emits_def
proof
  fix s
  from assms(1) obtain new where m: "trace (end_state (m s)) = trace s @ new" "list_all (\<lambda>e. P (fst e)) new"
    unfolding emits_def by blast
  show "\<exists>new. trace (end_state (andThen m f s)) = trace s @ new \<and> list_all (\<lambda>e. P (fst e)) new"
  proof (cases "m s")
    case (Inl e)
    then show ?thesis using m by (cases e) (auto simp add: andThen_def end_state_def)
  next
    case (Inr r)
    obtain x s1 where r: "r = (x, s1)" by (cases r)
    from assms(2) [of x] obtain new' where f: "trace (end_state (f x s1)) = trace s1 @ new'"
      "list_all (\<lambda>e. P (fst e)) new'"
      unfolding emits_def by blast
    have s1: "end_state (m s) = s1" using Inr r by (simp add: end_state_def)
    have e: "andThen m f s = f x s1" using Inr r by (simp add: andThen_def)
    show ?thesis using m f s1 unfolding e by auto
  qed
qed

lemma emits_try_catch [emits_intros]:
  assumes "emits P m" and "\<And>msg. emits P (h msg)"
  shows "emits P (try_catch m h)"
  unfolding emits_def
proof
  fix s
  from assms(1) obtain new where m: "trace (end_state (m s)) = trace s @ new" "list_all (\<lambda>e. P (fst e)) new"
    unfolding emits_def by blast
  show "\<exists>new. trace (end_state (try_catch m h s)) = trace s @ new \<and> list_all (\<lambda>e. P (fst e)) new"
  proof (cases "m s")
    case (Inr r)
    then show ?thesis using m by (auto simp add: try_catch_def end_state_def)
  next
    case (Inl r)
    obtain e s1 where r: "r = (e, s1)" by (cases r)
    show ?thesis
    proof (cases e)
      case Returned
      then show ?thesis using m Inl r by (auto simp add: try_catch_def end_state_def)
    next
      case (Thrown msg)
      from assms(2) [of msg] obtain new' where f: "trace (end_state (h msg s1)) = trace s1 @ new'"
        "list_all (\<lambda>e. P (fst e)) new'"
        unfolding emits_def by blast
      have s1: "end_state (m s) = s1" using Inl r by (simp add: end_state_def)
      have e: "try_catch m h s = h msg s1" using Inl r Thrown by (simp add: try_catch_def)
      show ?thesis using m f s1 unfolding e by auto
    qed
  qed
qed

lemma emits_if [emits_intros]:
  "(b \<Longrightarrow> emits P m) \<Longrightarrow> (\<not> b \<Longrightarrow> emits P n) \<Longrightarrow> emits P (if b then m else n)"
  by simp

lemma emits_case_option [emits_intros]:
  "emits P m \<Longrightarrow> (\<And>a. emits P (f a)) \<Longrightarrow> emits P (case x of None \<Rightarrow> m | Some a \<Rightarrow> f a)"
  by (cases x) simp_all

lemma emits_call_uint [emits_intros]: "P c \<Longrightarrow> emits P (call_uint W c)"
  by (auto simp add: emits_def call_uint_def end_state_def record_call_def split: sum.splits)

lemma emits_call_tx [emits_intros]: "P c \<Longrightarrow> emits P (call_tx W c)"
  by (auto simp add: emits_def call_tx_def end_state_def record_call_def split: sum.splits)

lemma emits_call_logs [emits_intros]: "P c \<Longrightarrow> emits P (call_logs W c)"
  by (auto simp add: emits_def call_logs_def end_state_def record_call_def split: sum.splits)

lemma emits_call_address [emits_intros]: "P c \<Longrightarrow> emits P (call_address W c)"
  by (auto simp add: emits_def call_address_def end_state_def record_call_def split: sum.splits)

lemma emits_sleep [emits_intros]: "P (Sleep ms) \<Longrightarrow> emits P (sleep ms)"
  by (auto simp add: emits_def sleep_def end_state_def record_call_def)

lemma emits_now_seconds [emits_intros]: "emits P (now_seconds W)"
  by (simp add: emits_def now_seconds_def end_state_def)

lemma emits_find_src_escrow [emits_intros]:
  "(\<And>i. P (AddressOfEscrowSrc i)) \<Longrightarrow> emits P (find_src_escrow W logs)"
  by (induction W logs rule: find_src_escrow.induct) (auto intro!: emits_intros)


lemma is_secret_and_tuple_no_proof: "is_secret_and_tuple sec args \<Longrightarrow> Bytes32Array p \<notin> set args"
  by (induction sec args rule: is_secret_and_tuple.induct) simp_all

lemma secret_only_no_proof: "secret_and_immutables_only sec c \<Longrightarrow> \<not> supplies_proof p c"
  by (auto simp add: secret_and_immutables_only_def supplies_proof_def is_secret_and_tuple_no_proof
      split: option.splits)

lemma emits_script:
  "emits (secret_and_immutables_only (selectedSecret E)) (performMultipleFillCrossChainSwap W cfg E)"
  unfolding performMultipleFillCrossChainSwap_def initial_balances_def approve_or_return_def
    fill_create_src_escrow_def src_escrow_of_logs_def create_dst_and_withdraw_def withdrawal_phase_def
    fill_withdraw_def final_verification_def Let_def
  by (intro emits_intros) (simp_all add: secret_and_immutables_only_def)


lemmas script_defs =
  fill_trace_def performMultipleFillCrossChainSwap_def initial_balances_def approve_or_return_def
  fill_create_src_escrow_def src_escrow_of_logs_def create_dst_and_withdraw_def withdrawal_phase_def
  fill_withdraw_def final_verification_def fillAmount_def return_early_def

lemma sample_selectedSecret: "selectedSecret sample_fill_env = ''0x5ec2e70a''"
  by (simp add: selectedSecret_def secrets_def idx_def sample_fill_env_def)


lemma sample_fill_users:
  "srcUser sample_fill_env = 0xABCD" "dstUser sample_fill_env = 0xABCD"
  "srcEscrowFactory sample_fill_env = 0x5001" "dstEscrowFactory sample_fill_env = 0x5002"
  by (simp_all add: sample_fill_env_def)


lemma sample_fill_trace_withdrawals:
  "filter (\<lambda>e. is_withdraw (fst e)) (fill_trace funded_world sample_config sample_fill_env) =
     [(EstimateWithdraw Dst 0xD57 [Bytes32 ''0x5ec2e70a'', Tuple sample_fill_dst], Uint 200000),
      (Withdraw Dst 0xD57 [Bytes32 ''0x5ec2e70a'', Tuple sample_fill_dst] (Some 240000), Done),
      (EstimateWithdraw Src 0x5C0 [Bytes32 ''0x5ec2e70a'', Tuple sample_fill_src], Uint 200000),
      (Withdraw Src 0x5C0 [Bytes32 ''0x5ec2e70a'', Tuple sample_fill_src] (Some 240000), Done)]"
  by (simp add: script_defs prog_defs sample_selectedSecret sample_fill_users funded_world_def unfunded_world_def
      sample_fill_src_def sample_fill_dst_def Let_def)




text \<open>
  C6, as the code has it. In every run of the multi-fill script, each withdrawal call and
  each gas estimate of one carries exactly two arguments, the selected secret and one
  Immutables tuple; none carries the Merkle proof that the script computed for the
  selected index.
\<close>

theorem script_withdrawals_carry_no_proof:
  "list_all (\<lambda>e. secret_and_immutables_only (selectedSecret E) (fst e)) (fill_trace W cfg E)
   \<and> list_all (\<lambda>e. \<not> supplies_proof (merkle_proof E) (fst e)) (fill_trace W cfg E)"
proof -
  let ?s0 = "\<lparr> store = (), trace = [] \<rparr>"
  from emits_script [of E W cfg]
  obtain new where "trace (end_state (performMultipleFillCrossChainSwap W cfg E ?s0)) = trace ?s0 @ new"
    "list_all (\<lambda>e. secret_and_immutables_only (selectedSecret E) (fst e)) new"
    unfolding emits_def by blast
  then have a: "list_all (\<lambda>e. secret_and_immutables_only (selectedSecret E) (fst e)) (fill_trace W cfg E)"
    by (simp add: fill_trace_def)
  then show ?thesis
    by (auto simp add: list_all_iff secret_only_no_proof)
qed


text \<open>
  C6 as stated fails: in the sample run both \<open>withdraw\<close> calls are in the trace and
  neither has the proof among its arguments.
\<close>

theorem script_withdrawals_counterexample:
  "merkle_proof sample_fill_env = [''0x9100f1'', ''0x9100f2'', ''0x9100f3'', ''0x9100f4'']
   \<and> (Withdraw Dst 0xD57 [Bytes32 ''0x5ec2e70a'', Tuple sample_fill_dst] (Some 240000), Done)
       \<in> set (fill_trace funded_world sample_config sample_fill_env)
   \<and> \<not> supplies_proof (merkle_proof sample_fill_env)
         (Withdraw Dst 0xD57 [Bytes32 ''0x5ec2e70a'', Tuple sample_fill_dst] (Some 240000))
   \<and> (Withdraw Src 0x5C0 [Bytes32 ''0x5ec2e70a'', Tuple sample_fill_src] (Some 240000), Done)
       \<in> set (fill_trace funded_world sample_config sample_fill_env)
   \<and> \<not> supplies_proof (merkle_proof sample_fill_env)
         (Withdraw Src 0x5C0 [Bytes32 ''0x5ec2e70a'', Tuple sample_fill_src] (Some 240000))"
proof -
  let ?tr = "fill_trace funded_world sample_config sample_fill_env"
  let ?wd = "(Withdraw Dst 0xD57 [Bytes32 ''0x5ec2e70a'', Tuple sample_fill_dst] (Some 240000), Done)"
  let ?ws = "(Withdraw Src 0x5C0 [Bytes32 ''0x5ec2e70a'', Tuple sample_fill_src] (Some 240000), Done)"
  have "?wd \<in> set (filter (\<lambda>e. is_withdraw (fst e)) ?tr)" "?ws \<in> set (filter (\<lambda>e. is_withdraw (fst e)) ?tr)"
    unfolding sample_fill_trace_withdrawals by simp_all
  then have "?wd \<in> set ?tr" "?ws \<in> set ?tr" by simp_all
  moreover have "merkle_proof sample_fill_env = [''0x9100f1'', ''0x9100f2'', ''0x9100f3'', ''0x9100f4'']"
    by (simp add: merkle_proof_def sample_fill_env_def)
  ultimately show ?thesis
    by (simp add: supplies_proof_def)
qed

section \<open>Properties: the script that never reaches an escrow\<close>

lemma orderData_throws:
  "resolve_all signing_scope orderData_identifiers s = Inl (Thrown ''auctionStartTimestamp is not defined'', s)"
  by (simp add: signing_scope_def signing_locals_def module_bindings_def host_globals_def
      orderData_identifiers_def throw_def)


text \<open>
  C10. Whatever the ledgers answer and whatever the statements after the signing step
  do, \<open>performMultipleFillCrossChainSwap\<close> of \<open>scripts/arb-sep-mul-fixed.js\<close> throws:
  either one of its four initial balance reads throws, or the order data throws
  \<open>auctionStartTimestamp is not defined\<close>. When it throws it has made at most those four
  reads: no approval, no escrow creation, no transfer and no withdrawal.
\<close>

theorem fixed_script_throws_before_any_escrow:
  "\<exists>msg s. performMultipleFillCrossChainSwap_fixed W E rest \<lparr> store = (), trace = [] \<rparr> = Inl (Thrown msg, s)
      \<and> list_all (\<lambda>e. is_balance_read (fst e)) (trace s) \<and> length (trace s) \<le> 4
      \<and> (msg = ''auctionStartTimestamp is not defined'' \<or> (\<exists>c. (c, Threw msg) \<in> set (trace s)))"
  by (auto simp add: performMultipleFillCrossChainSwap_fixed_def initial_balances_def andThen_def
      call_uint_def record_call_def ret_def orderData_throws split: sum.splits)


text \<open>With four successful reads the error is the missing identifier.\<close>

lemma fixed_script_after_reads:
  "performMultipleFillCrossChainSwap_fixed funded_world sample_fill_env rest \<lparr> store = (), trace = [] \<rparr> =
     Inl (Thrown ''auctionStartTimestamp is not defined'',
          \<lparr> store = (), trace = [(BalanceOf Src 0xABCD, Uint 5000000), (BalanceOf Dst 0xABCD, Uint 5000000),
                                  (GetBalance Src 0xABCD, Uint 200000), (GetBalance Dst 0xABCD, Uint 200000)] \<rparr>)"
  by (simp add: performMultipleFillCrossChainSwap_fixed_def initial_balances_def andThen_def
      call_uint_def record_call_def ret_def orderData_throws funded_world_def unfunded_world_def sample_fill_users)


end
